theory Spec2Isabelle
  imports Complex_Main "HOL-Library.Char_ord" "HOL-Library.List_Lexorder" "HOL-Library.Log_Nat"
begin

section \<open>Data model of \<^verbatim>\<open>backend/server.py\<close>\<close>

text \<open>
  Strings are byte lists, compared bytewise and lexicographically (the order MongoDB
  uses for \<^verbatim>\<open>$gte\<close>/\<^verbatim>\<open>$lte\<close> on strings). A \<^verbatim>\<open>datetime\<close> is kept as the ISO text
  that \<^verbatim>\<open>isoformat()\<close> stores.
\<close>

type_synonym timestamp = string

text \<open>\<^verbatim>\<open>class User(BaseModel)\<close>\<close>

record user =
  u_id :: string
  u_email :: string
  u_name :: string
  u_role :: string
  u_created_at :: timestamp

text \<open>\<^verbatim>\<open>class Student(BaseModel)\<close>\<close>

record student =
  s_id :: string
  s_name :: string
  s_roll_number :: string
  s_class_id :: string
  s_email :: "string option"
  s_phone :: "string option"
  s_created_at :: timestamp

text \<open>\<^verbatim>\<open>class Class(BaseModel)\<close> and \<^verbatim>\<open>class ClassCreate(BaseModel)\<close>\<close>

record class_doc =
  c_id :: string
  c_name :: string
  c_section :: string
  c_subject :: "string option"
  c_teacher_id :: string
  c_created_at :: timestamp

record class_create =
  cc_name :: string
  cc_section :: string
  cc_subject :: "string option"

text \<open>\<^verbatim>\<open>class Attendance(BaseModel)\<close> and \<^verbatim>\<open>class AttendanceCreate(BaseModel)\<close>\<close>

record attendance_doc =
  att_id :: string
  att_student_id :: string
  att_class_id :: string
  att_date :: string
  att_status :: string
  att_marked_by :: string
  att_remarks :: "string option"
  att_created_at :: timestamp
  att_updated_at :: timestamp

record attendance_create =
  ac_student_id :: string
  ac_class_id :: string
  ac_date :: string
  ac_status :: string
  ac_remarks :: "string option"

text \<open>
  The values a decoded JSON body can hold. \<^verbatim>\<open>BulkAttendanceCreate.attendance_records\<close>
  is a \<^verbatim>\<open>List[dict]\<close>: each entry is an untyped dictionary from keys to such values.
\<close>

datatype json =
  JNull
| JBool bool
| JNum rat
| JStr string
| JList "json list"
| JDict "(string \<times> json) list"

type_synonym pydict = "string \<rightharpoonup> json"

record bulk_attendance_create =
  b_class_id :: string
  b_date :: string
  b_attendance_records :: "pydict list"

text \<open>
  What a handler can raise: an \<^verbatim>\<open>HTTPException(status_code, detail)\<close>, or a Python
  exception that escapes the handler.
\<close>

datatype error =
  HTTPException nat string
| KeyError string
| ValidationError string
| TypeError
| ZeroDivisionError

text \<open>
  The process state: the three MongoDB collections in their natural (insertion) order,
  and the two sources of fresh values the handlers read, \<^verbatim>\<open>uuid.uuid4()\<close> and
  \<^verbatim>\<open>datetime.now(timezone.utc)\<close>, as the sequences of values their next calls return.
\<close>

record world =
  attendance :: "attendance_doc list"
  students :: "student list"
  classes :: "class_doc list"
  uuids :: "nat \<Rightarrow> string"
  clock :: "nat \<Rightarrow> timestamp"

definition uuid4 :: "world \<Rightarrow> string \<times> world" where
  "uuid4 w = (uuids w 0, w\<lparr>uuids := \<lambda>n. uuids w (Suc n)\<rparr>)"

definition utcnow :: "world \<Rightarrow> timestamp \<times> world" where
  "utcnow w = (clock w 0, w\<lparr>clock := \<lambda>n. clock w (Suc n)\<rparr>)"

section \<open>The persistence operations used by the handlers\<close>

text \<open>\<^verbatim>\<open>find_one(filter)\<close>: the first matching document, or \<^verbatim>\<open>None\<close>.\<close>

fun find_one :: "('a \<Rightarrow> bool) \<Rightarrow> 'a list \<Rightarrow> 'a option" where
  "find_one P [] = None"
| "find_one P (x # xs) = (if P x then Some x else find_one P xs)"

text \<open>\<^verbatim>\<open>update_one(filter, {"$set": ...})\<close>: patches the first matching document in place.\<close>

fun update_one :: "('a \<Rightarrow> bool) \<Rightarrow> ('a \<Rightarrow> 'a) \<Rightarrow> 'a list \<Rightarrow> 'a list" where
  "update_one P f [] = []"
| "update_one P f (x # xs) = (if P x then f x # xs else x # update_one P f xs)"

text \<open>\<^verbatim>\<open>delete_one(filter)\<close>: removes the first matching document; \<^verbatim>\<open>deleted_count\<close> is 0 or 1.\<close>

fun delete_one :: "('a \<Rightarrow> bool) \<Rightarrow> 'a list \<Rightarrow> nat \<times> 'a list" where
  "delete_one P [] = (0, [])"
| "delete_one P (x # xs) =
     (if P x then (1, xs) else (case delete_one P xs of (n, ys) \<Rightarrow> (n, x # ys)))"

text \<open>\<^verbatim>\<open>insert_one(doc)\<close> appends; \<^verbatim>\<open>find(filter).to_list(n)\<close> is the first \<open>n\<close> matches.\<close>

definition insert_one :: "'a \<Rightarrow> 'a list \<Rightarrow> 'a list" where
  "insert_one doc coll = coll @ [doc]"

definition find_to_list :: "('a \<Rightarrow> bool) \<Rightarrow> nat \<Rightarrow> 'a list \<Rightarrow> 'a list" where
  "find_to_list P n coll = take n (filter P coll)"

text \<open>
  The filter documents the handlers build: a key is tested for equality with a string, or
  against \<^verbatim>\<open>{"$gte": lo, "$lte": hi}\<close>. A filter is the list of its items in insertion
  order, and a document matches when every item does.
\<close>

datatype cond = Eq string | Between string string

type_synonym query = "(string \<times> cond) list"

fun sat :: "cond \<Rightarrow> string \<Rightarrow> bool" where
  "sat (Eq v) x = (x = v)"
| "sat (Between lo hi) x = (lo \<le> x \<and> x \<le> hi)"

definition att_field :: "attendance_doc \<Rightarrow> string \<Rightarrow> string option" where
  "att_field r k =
     (if k = ''id'' then Some (att_id r)
      else if k = ''student_id'' then Some (att_student_id r)
      else if k = ''class_id'' then Some (att_class_id r)
      else if k = ''date'' then Some (att_date r)
      else if k = ''status'' then Some (att_status r)
      else if k = ''marked_by'' then Some (att_marked_by r)
      else if k = ''remarks'' then att_remarks r
      else if k = ''created_at'' then Some (att_created_at r)
      else if k = ''updated_at'' then Some (att_updated_at r)
      else None)"

fun att_matches :: "query \<Rightarrow> attendance_doc \<Rightarrow> bool" where
  "att_matches [] r = True"
| "att_matches ((k, c) # q) r =
     ((case att_field r k of None \<Rightarrow> False | Some x \<Rightarrow> sat c x) \<and> att_matches q r)"

text \<open>
  Assignment into a Python dict: \<^verbatim>\<open>query[k] = c\<close> replaces the value of an existing key
  in place and appends a new key otherwise.
\<close>

fun dict_set :: "string \<Rightarrow> cond \<Rightarrow> query \<Rightarrow> query" where
  "dict_set k c [] = [(k, c)]"
| "dict_set k c ((k', c') # q) = (if k' = k then (k, c) # q else (k', c') # dict_set k c q)"

text \<open>Python truthiness of an \<^verbatim>\<open>Optional[str]\<close>: \<^verbatim>\<open>None\<close> and the empty string are false.\<close>

fun truthy :: "string option \<Rightarrow> bool" where
  "truthy None = False"
| "truthy (Some s) = (s \<noteq> [])"

section \<open>Attendance routes\<close>

text \<open>The filter \<^verbatim>\<open>{"student_id": ..., "class_id": ..., "date": ...}\<close> of the upsert.\<close>

definition triple_query :: "attendance_create \<Rightarrow> query" where
  "triple_query inp =
     [(''student_id'', Eq (ac_student_id inp)),
      (''class_id'', Eq (ac_class_id inp)),
      (''date'', Eq (ac_date inp))]"

text \<open>
  \<^verbatim>\<open>{"$set": update_data}\<close> with \<^verbatim>\<open>update_data = attendance_input.model_dump()\<close> extended
  by \<^verbatim>\<open>marked_by\<close> and \<^verbatim>\<open>updated_at\<close>.
\<close>

definition set_update_data :: "attendance_create \<Rightarrow> string \<Rightarrow> timestamp \<Rightarrow> attendance_doc \<Rightarrow> attendance_doc" where
  "set_update_data inp marker now r =
     r\<lparr>att_student_id := ac_student_id inp,
       att_class_id := ac_class_id inp,
       att_date := ac_date inp,
       att_status := ac_status inp,
       att_remarks := ac_remarks inp,
       att_marked_by := marker,
       att_updated_at := now\<rparr>"

text \<open>
  \<^verbatim>\<open>Attendance(**attendance_dict)\<close>: the default factories run in field order, \<^verbatim>\<open>id\<close>
  first, then \<^verbatim>\<open>created_at\<close>, then \<^verbatim>\<open>updated_at\<close>.
\<close>

definition new_attendance :: "attendance_create \<Rightarrow> string \<Rightarrow> world \<Rightarrow> attendance_doc \<times> world" where
  "new_attendance inp marker w =
     (case uuid4 w of (uid, w1) \<Rightarrow>
      case utcnow w1 of (created, w2) \<Rightarrow>
      case utcnow w2 of (updated, w3) \<Rightarrow>
        (\<lparr>att_id = uid,
          att_student_id = ac_student_id inp,
          att_class_id = ac_class_id inp,
          att_date = ac_date inp,
          att_status = ac_status inp,
          att_marked_by = marker,
          att_remarks = ac_remarks inp,
          att_created_at = created,
          att_updated_at = updated\<rparr>, w3))"

text \<open>\<^verbatim>\<open>POST /attendance\<close>\<close>

definition mark_attendance ::
  "attendance_create \<Rightarrow> user \<Rightarrow> world \<Rightarrow> (error + attendance_doc) \<times> world" where
  "mark_attendance attendance_input current_user w =
     (case find_one (att_matches (triple_query attendance_input)) (attendance w) of
        Some existing \<Rightarrow>
          (case utcnow w of (now, w1) \<Rightarrow>
           let w2 = w1\<lparr>attendance :=
                      update_one (att_matches [(''id'', Eq (att_id existing))])
                        (set_update_data attendance_input (u_id current_user) now)
                        (attendance w1)\<rparr>
           in (case find_one (att_matches [(''id'', Eq (att_id existing))]) (attendance w2) of
                 None \<Rightarrow> (Inl TypeError, w2)
               | Some updated \<Rightarrow> (Inr updated, w2)))
      | None \<Rightarrow>
          (case new_attendance attendance_input (u_id current_user) w of (doc, w1) \<Rightarrow>
             (Inr doc, w1\<lparr>attendance := insert_one doc (attendance w1)\<rparr>)))"

text \<open>
  Building \<^verbatim>\<open>AttendanceCreate(student_id=record['student_id'], ..., status=record['status'],
  remarks=record.get('remarks'))\<close> from one entry of the bulk list. The arguments are
  evaluated left to right, so a missing \<^verbatim>\<open>student_id\<close> raises before a missing
  \<^verbatim>\<open>status\<close>; \<^verbatim>\<open>get\<close> never raises. The model then validates: a \<^verbatim>\<open>str\<close> field accepts
  only a string, \<^verbatim>\<open>Optional[str]\<close> also \<^verbatim>\<open>None\<close>.
\<close>

definition getitem :: "pydict \<Rightarrow> string \<Rightarrow> error + json" where
  "getitem d k = (case d k of None \<Rightarrow> Inl (KeyError k) | Some v \<Rightarrow> Inr v)"

fun is_str :: "json \<Rightarrow> bool" where
  "is_str (JStr s) = True"
| "is_str v = False"

fun str_of :: "json \<Rightarrow> string" where
  "str_of (JStr s) = s"
| "str_of v = []"

fun is_opt_str :: "json option \<Rightarrow> bool" where
  "is_opt_str None = True"
| "is_opt_str (Some JNull) = True"
| "is_opt_str (Some (JStr s)) = True"
| "is_opt_str (Some v) = False"

fun opt_str_of :: "json option \<Rightarrow> string option" where
  "opt_str_of (Some (JStr s)) = Some s"
| "opt_str_of v = None"

definition attendance_create_of :: "pydict \<Rightarrow> string \<Rightarrow> string \<Rightarrow> error + attendance_create" where
  "attendance_create_of record class_id date =
     (case getitem record ''student_id'' of
        Inl e \<Rightarrow> Inl e
      | Inr student_id \<Rightarrow>
          (case getitem record ''status'' of
             Inl e \<Rightarrow> Inl e
           | Inr status \<Rightarrow>
               (let remarks = record ''remarks'' in
                if is_str student_id \<and> is_str status \<and> is_opt_str remarks
                then Inr \<lparr>ac_student_id = str_of student_id,
                          ac_class_id = class_id,
                          ac_date = date,
                          ac_status = str_of status,
                          ac_remarks = opt_str_of remarks\<rparr>
                else Inl (ValidationError ''AttendanceCreate''))))"

text \<open>
  One entry \<^verbatim>\<open>{"student_id": record['student_id'], "action": ...}\<close> of the bulk
  response. When the entry is written, \<^verbatim>\<open>record['student_id']\<close> has passed validation
  as a string, so it is the \<^verbatim>\<open>student_id\<close> of \<^verbatim>\<open>attendance_input\<close>.
\<close>

record bulk_result =
  br_student_id :: string
  br_action :: string

record bulk_response =
  br_message :: string
  br_results :: "bulk_result list"

text \<open>
  \<^verbatim>\<open>POST /attendance/bulk\<close>: the body of the \<^verbatim>\<open>for record in ...\<close> loop, with the
  \<^verbatim>\<open>results\<close> list and the state threaded through. An exception leaves the loop
  with the state as it is at that moment.
\<close>

fun bulk_loop ::
  "string \<Rightarrow> string \<Rightarrow> user \<Rightarrow> pydict list \<Rightarrow> bulk_result list \<Rightarrow> world
     \<Rightarrow> (error + bulk_result list) \<times> world" where
  "bulk_loop class_id date current_user [] results w = (Inr results, w)"
| "bulk_loop class_id date current_user (record # rest) results w =
     (case attendance_create_of record class_id date of
        Inl e \<Rightarrow> (Inl e, w)
      | Inr attendance_input \<Rightarrow>
          (case find_one (att_matches (triple_query attendance_input)) (attendance w) of
             Some existing \<Rightarrow>
               (case utcnow w of (now, w1) \<Rightarrow>
                  bulk_loop class_id date current_user rest
                    (results @ [\<lparr>br_student_id = ac_student_id attendance_input,
                                 br_action = ''updated''\<rparr>])
                    (w1\<lparr>attendance :=
                         update_one (att_matches [(''id'', Eq (att_id existing))])
                           (set_update_data attendance_input (u_id current_user) now)
                           (attendance w1)\<rparr>))
           | None \<Rightarrow>
               (case new_attendance attendance_input (u_id current_user) w of (doc, w1) \<Rightarrow>
                  bulk_loop class_id date current_user rest
                    (results @ [\<lparr>br_student_id = ac_student_id attendance_input,
                                 br_action = ''created''\<rparr>])
                    (w1\<lparr>attendance := insert_one doc (attendance w1)\<rparr>))))"

definition mark_bulk_attendance ::
  "bulk_attendance_create \<Rightarrow> user \<Rightarrow> world \<Rightarrow> (error + bulk_response) \<times> world" where
  "mark_bulk_attendance bulk_input current_user w =
     (case bulk_loop (b_class_id bulk_input) (b_date bulk_input) current_user
             (b_attendance_records bulk_input) [] w of
        (Inl e, w') \<Rightarrow> (Inl e, w')
      | (Inr results, w') \<Rightarrow>
          (Inr \<lparr>br_message = ''Bulk attendance marked successfully'', br_results = results\<rparr>, w'))"

text \<open>\<^verbatim>\<open>GET /attendance\<close>: builds the filter from the truthy parameters, then fetches.\<close>

fun opt_val :: "string option \<Rightarrow> string" where
  "opt_val None = []"
| "opt_val (Some s) = s"

definition attendance_query ::
  "string option \<Rightarrow> string option \<Rightarrow> string option \<Rightarrow> string option \<Rightarrow> string option \<Rightarrow> query" where
  "attendance_query class_id student_id date start_date end_date =
     (let query = [];
          query = (if truthy class_id then dict_set ''class_id'' (Eq (opt_val class_id)) query
                   else query);
          query = (if truthy student_id then dict_set ''student_id'' (Eq (opt_val student_id)) query
                   else query);
          query = (if truthy date then dict_set ''date'' (Eq (opt_val date)) query
                   else if truthy start_date \<and> truthy end_date
                   then dict_set ''date'' (Between (opt_val start_date) (opt_val end_date)) query
                   else query)
      in query)"

definition get_attendance ::
  "string option \<Rightarrow> string option \<Rightarrow> string option \<Rightarrow> string option \<Rightarrow> string option
     \<Rightarrow> world \<Rightarrow> attendance_doc list" where
  "get_attendance class_id student_id date start_date end_date w =
     find_to_list (att_matches (attendance_query class_id student_id date start_date end_date))
       10000 (attendance w)"

section \<open>Python numbers in the report\<close>

text \<open>
  A Python \<^verbatim>\<open>float\<close> is an IEEE 754 binary64 number; the model holds the rational it
  denotes. \<open>to_double\<close> rounds a rational to the nearest binary64 value, ties to even:
  for \<open>2 ^ e \<le> \<bar>x\<bar> < 2 ^ (e + 1)\<close> the spacing of the doubles is \<open>2 ^ (e - 52)\<close>, and
  never less than \<open>2 ^ - 1074\<close> (the subnormal range). Overflow to infinity is not
  modelled: the numbers of the report are quotients of counts of at most 10000
  documents.
\<close>

definition round_half_even :: "rat \<Rightarrow> int" where
  "round_half_even x =
     (let n = \<lfloor>x\<rfloor>; d = x - of_int n
      in if d < 1 / 2 then n else if 1 / 2 < d then n + 1 else if even n then n else n + 1)"

definition binary_exponent :: "rat \<Rightarrow> int" where
  "binary_exponent x =
     (case quotient_of \<bar>x\<bar> of (a, b) \<Rightarrow>
        let k = bitlen a - bitlen b
        in if power_int 2 k \<le> \<bar>x\<bar> then k else k - 1)"

definition to_double :: "rat \<Rightarrow> rat" where
  "to_double x =
     (if x = 0 then 0
      else let ulp = power_int 2 (max (binary_exponent x - 52) (- 1074))
           in sgn x * of_int (round_half_even (\<bar>x\<bar> / ulp)) * ulp)"

datatype pynum = PyInt int | PyFloat rat

text \<open>\<^verbatim>\<open>a / b\<close> on two \<^verbatim>\<open>int\<close>s: the correctly rounded quotient, or \<^verbatim>\<open>ZeroDivisionError\<close>.\<close>

definition int_truediv :: "int \<Rightarrow> int \<Rightarrow> error + rat" where
  "int_truediv a b = (if b = 0 then Inl ZeroDivisionError else Inr (to_double (of_int a / of_int b)))"

text \<open>\<^verbatim>\<open>x * 100\<close> on a \<^verbatim>\<open>float\<close> and an \<^verbatim>\<open>int\<close>: the \<^verbatim>\<open>int\<close> is converted, the product rounded.\<close>

definition float_mul_int :: "rat \<Rightarrow> int \<Rightarrow> rat" where
  "float_mul_int x n = to_double (x * to_double (of_int n))"

text \<open>
  \<^verbatim>\<open>round(v, ndigits)\<close> with \<open>ndigits \<ge> 0\<close>: an \<^verbatim>\<open>int\<close> is returned as it is; a \<^verbatim>\<open>float\<close> is
  rounded, from its exact value, to the nearest decimal with \<open>ndigits\<close> places (ties to
  even), and the result is the double nearest to that decimal.
\<close>

fun py_round :: "pynum \<Rightarrow> nat \<Rightarrow> pynum" where
  "py_round (PyInt n) ndigits = PyInt n"
| "py_round (PyFloat x) ndigits =
     PyFloat (to_double (of_int (round_half_even (x * 10 ^ ndigits)) / 10 ^ ndigits))"

section \<open>Report\<close>

record student_stat =
  st_student_id :: string
  st_student_name :: string
  st_roll_number :: string
  st_total_days :: nat
  st_present :: nat
  st_absent :: nat
  st_late :: nat
  st_attendance_percentage :: pynum

record report_response =
  rp_class_id :: string
  rp_start_date :: string
  rp_end_date :: string
  rp_report :: "student_stat list"

text \<open>The body of \<^verbatim>\<open>for student in students\<close>: the entry appended for one student.\<close>

definition student_entry :: "student \<Rightarrow> attendance_doc list \<Rightarrow> error + student_stat" where
  "student_entry student attendance_records =
     (let student_attendance = filter (\<lambda>r. att_student_id r = s_id student) attendance_records;
          total_days = length (remdups (map att_date attendance_records));
          present_count = length (filter (\<lambda>r. att_status r = ''present'') student_attendance);
          absent_count = length (filter (\<lambda>r. att_status r = ''absent'') student_attendance);
          late_count = length (filter (\<lambda>r. att_status r = ''late'') student_attendance)
      in case (if total_days > 0
               then (case int_truediv (int present_count) (int total_days) of
                       Inl e \<Rightarrow> Inl e
                     | Inr q \<Rightarrow> Inr (PyFloat (float_mul_int q 100)))
               else Inr (PyInt 0)) of
           Inl e \<Rightarrow> Inl e
         | Inr attendance_percentage \<Rightarrow>
             Inr \<lparr>st_student_id = s_id student,
                  st_student_name = s_name student,
                  st_roll_number = s_roll_number student,
                  st_total_days = total_days,
                  st_present = present_count,
                  st_absent = absent_count,
                  st_late = late_count,
                  st_attendance_percentage = py_round attendance_percentage 2\<rparr>)"

fun report_loop :: "student list \<Rightarrow> attendance_doc list \<Rightarrow> student_stat list \<Rightarrow> error + student_stat list" where
  "report_loop [] attendance_records report = Inr report"
| "report_loop (student # rest) attendance_records report =
     (case student_entry student attendance_records of
        Inl e \<Rightarrow> Inl e
      | Inr entry \<Rightarrow> report_loop rest attendance_records (report @ [entry]))"

text \<open>\<^verbatim>\<open>GET /attendance/report\<close>\<close>

definition report_students :: "string \<Rightarrow> world \<Rightarrow> student list" where
  "report_students class_id w = find_to_list (\<lambda>s. s_class_id s = class_id) 1000 (students w)"

definition report_records :: "string \<Rightarrow> string \<Rightarrow> string \<Rightarrow> world \<Rightarrow> attendance_doc list" where
  "report_records class_id start_date end_date w =
     find_to_list (att_matches [(''class_id'', Eq class_id), (''date'', Between start_date end_date)])
       10000 (attendance w)"

definition get_attendance_report :: "string \<Rightarrow> string \<Rightarrow> string \<Rightarrow> world \<Rightarrow> error + report_response" where
  "get_attendance_report class_id start_date end_date w =
     (let students = report_students class_id w;
          attendance_records = report_records class_id start_date end_date w
      in case report_loop students attendance_records [] of
           Inl e \<Rightarrow> Inl e
         | Inr report \<Rightarrow>
             Inr \<lparr>rp_class_id = class_id, rp_start_date = start_date, rp_end_date = end_date,
                  rp_report = report\<rparr>)"

section \<open>Class routes\<close>

text \<open>\<^verbatim>\<open>{"$set": class_input.model_dump()}\<close>\<close>

definition set_class_data :: "class_create \<Rightarrow> class_doc \<Rightarrow> class_doc" where
  "set_class_data class_input c =
     c\<lparr>c_name := cc_name class_input,
       c_section := cc_section class_input,
       c_subject := cc_subject class_input\<rparr>"

text \<open>\<^verbatim>\<open>PUT /classes/{class_id}\<close>\<close>

definition update_class :: "string \<Rightarrow> class_create \<Rightarrow> user \<Rightarrow> world \<Rightarrow> (error + class_doc) \<times> world" where
  "update_class class_id class_input current_user w =
     (case find_one (\<lambda>c. c_id c = class_id) (classes w) of
        None \<Rightarrow> (Inl (HTTPException 404 ''Class not found''), w)
      | Some existing \<Rightarrow>
          if u_role current_user \<noteq> ''admin'' \<and> c_teacher_id existing \<noteq> u_id current_user
          then (Inl (HTTPException 403 ''Not authorized to update this class''), w)
          else let w1 = w\<lparr>classes := update_one (\<lambda>c. c_id c = class_id)
                                        (set_class_data class_input) (classes w)\<rparr>
               in (case find_one (\<lambda>c. c_id c = class_id) (classes w1) of
                     None \<Rightarrow> (Inl TypeError, w1)
                   | Some updated \<Rightarrow> (Inr updated, w1)))"

text \<open>\<^verbatim>\<open>DELETE /classes/{class_id}\<close>\<close>

definition delete_class :: "string \<Rightarrow> user \<Rightarrow> world \<Rightarrow> (error + string) \<times> world" where
  "delete_class class_id current_user w =
     (case find_one (\<lambda>c. c_id c = class_id) (classes w) of
        None \<Rightarrow> (Inl (HTTPException 404 ''Class not found''), w)
      | Some existing \<Rightarrow>
          if u_role current_user \<noteq> ''admin'' \<and> c_teacher_id existing \<noteq> u_id current_user
          then (Inl (HTTPException 403 ''Not authorized to delete this class''), w)
          else (case delete_one (\<lambda>c. c_id c = class_id) (classes w) of (deleted_count, coll) \<Rightarrow>
                  let w1 = w\<lparr>classes := coll\<rparr>
                  in if deleted_count = 0
                     then (Inl (HTTPException 404 ''Class not found''), w1)
                     else (Inr ''Class deleted successfully'', w1)))"

section \<open>Vocabulary of the properties\<close>

text \<open>A document of the attendance collection carries the triple \<open>(s, c, d)\<close>.\<close>

definition has_triple :: "string \<Rightarrow> string \<Rightarrow> string \<Rightarrow> attendance_doc \<Rightarrow> bool" where
  "has_triple s c d r \<longleftrightarrow> att_student_id r = s \<and> att_class_id r = c \<and> att_date r = d"

definition triple_of :: "attendance_doc \<Rightarrow> string \<times> string \<times> string" where
  "triple_of r = (att_student_id r, att_class_id r, att_date r)"

text \<open>A call of \<^verbatim>\<open>POST /attendance\<close> (its body and its caller) is for the triple \<open>(s, c, d)\<close>.\<close>

definition call_for :: "string \<Rightarrow> string \<Rightarrow> string \<Rightarrow> attendance_create \<times> user \<Rightarrow> bool" where
  "call_for s c d call \<longleftrightarrow>
     ac_student_id (fst call) = s \<and> ac_class_id (fst call) = c \<and> ac_date (fst call) = d"

text \<open>Calls of \<^verbatim>\<open>POST /attendance\<close> executed one after the other.\<close>

definition mark_all :: "(attendance_create \<times> user) list \<Rightarrow> world \<Rightarrow> world" where
  "mark_all calls w = fold (\<lambda>call w'. snd (mark_attendance (fst call) (snd call) w')) calls w"

text \<open>
  The collection-wide invariant: no two documents share a triple or an id, and the ids
  still to be generated are pairwise different and not in use.
\<close>

definition unique_store :: "world \<Rightarrow> bool" where
  "unique_store w \<longleftrightarrow>
     distinct (map triple_of (attendance w)) \<and> distinct (map att_id (attendance w))
     \<and> inj (uuids w) \<and> (\<forall>n. uuids w n \<notin> att_id ` set (attendance w))"

text \<open>A document is of the date \<open>d\<close>.\<close>

definition on_date :: "string \<Rightarrow> attendance_doc \<Rightarrow> bool" where
  "on_date d r \<longleftrightarrow> att_date r = d"

text \<open>
  A well-formed entry of the bulk list: \<^verbatim>\<open>{student_id: str, status: str}\<close>, with
  \<^verbatim>\<open>remarks\<close> absent, \<^verbatim>\<open>null\<close> or a string; the student and the status it names; and
  the \<^verbatim>\<open>AttendanceCreate\<close> it stands for under a class and a date.
\<close>

definition wf_entry :: "pydict \<Rightarrow> bool" where
  "wf_entry record \<longleftrightarrow>
     (case record ''student_id'' of None \<Rightarrow> False | Some v \<Rightarrow> is_str v)
   \<and> (case record ''status'' of None \<Rightarrow> False | Some v \<Rightarrow> is_str v)
   \<and> is_opt_str (record ''remarks'')"

definition entry_student_id :: "pydict \<Rightarrow> string" where
  "entry_student_id record = (case record ''student_id'' of None \<Rightarrow> [] | Some v \<Rightarrow> str_of v)"

definition entry_status :: "pydict \<Rightarrow> string" where
  "entry_status record = (case record ''status'' of None \<Rightarrow> [] | Some v \<Rightarrow> str_of v)"

definition entry_input :: "pydict \<Rightarrow> string \<Rightarrow> string \<Rightarrow> attendance_create" where
  "entry_input record class_id date =
     \<lparr>ac_student_id = entry_student_id record, ac_class_id = class_id, ac_date = date,
      ac_status = entry_status record, ac_remarks = opt_str_of (record ''remarks'')\<rparr>"

text \<open>The body of a \<^verbatim>\<open>POST /attendance/bulk\<close> request.\<close>

definition bulk_input :: "string \<Rightarrow> string \<Rightarrow> pydict list \<Rightarrow> bulk_attendance_create" where
  "bulk_input class_id date records =
     \<lparr>b_class_id = class_id, b_date = date, b_attendance_records = records\<rparr>"

text \<open>
  A document belongs to the class and lies in the inclusive date range of a report; the
  number of documents of a student with a status; the student ids a report lists.
\<close>

definition in_range :: "string \<Rightarrow> string \<Rightarrow> string \<Rightarrow> attendance_doc \<Rightarrow> bool" where
  "in_range class_id start_date end_date r \<longleftrightarrow>
     att_class_id r = class_id \<and> start_date \<le> att_date r \<and> att_date r \<le> end_date"

definition count_status :: "string \<Rightarrow> string \<Rightarrow> attendance_doc list \<Rightarrow> nat" where
  "count_status student_id status rs =
     length (filter (\<lambda>r. att_student_id r = student_id \<and> att_status r = status) rs)"

definition report_ids :: "error + report_response \<Rightarrow> string list" where
  "report_ids res = (case res of Inl e \<Rightarrow> [] | Inr rep \<Rightarrow> map st_student_id (rp_report rep))"

section \<open>Example data\<close>

text \<open>
  An empty database whose id and clock sources return pairwise different values, two
  teachers and an administrator.
\<close>

definition empty_world :: world where
  "empty_world =
     \<lparr>attendance = [], students = [], classes = [],
      uuids = (\<lambda>n. ''uuid-'' @ replicate n (CHR ''i'')),
      clock = (\<lambda>n. ''2024-01-05T08:00:00'' @ replicate n (CHR ''+''))\<rparr>"

definition teacher1 :: user where
  "teacher1 = \<lparr>u_id = ''T1'', u_email = ''t1@school.com'', u_name = ''Teacher One'',
               u_role = ''teacher'', u_created_at = ''2024-01-01T00:00:00''\<rparr>"

definition teacher2 :: user where
  "teacher2 = \<lparr>u_id = ''T2'', u_email = ''t2@school.com'', u_name = ''Teacher Two'',
               u_role = ''teacher'', u_created_at = ''2024-01-01T00:00:00''\<rparr>"

definition admin1 :: user where
  "admin1 = \<lparr>u_id = ''A1'', u_email = ''a1@school.com'', u_name = ''Admin One'',
             u_role = ''admin'', u_created_at = ''2024-01-01T00:00:00''\<rparr>"

text \<open>Request bodies of \<^verbatim>\<open>POST /attendance\<close> and \<^verbatim>\<open>PUT /classes/{class_id}\<close>.\<close>

definition mark_s1 :: "string \<Rightarrow> string option \<Rightarrow> attendance_create" where
  "mark_s1 status remarks =
     \<lparr>ac_student_id = ''s1'', ac_class_id = ''c1'', ac_date = ''2024-01-05'',
      ac_status = status, ac_remarks = remarks\<rparr>"

definition mark_sA :: attendance_create where
  "mark_sA = \<lparr>ac_student_id = ''sA'', ac_class_id = ''c1'', ac_date = ''2024-01-05'',
              ac_status = ''late'', ac_remarks = Some ''bus''\<rparr>"

definition new_math :: class_create where
  "new_math = \<lparr>cc_name = ''Maths'', cc_section = ''B'', cc_subject = None\<rparr>"

text \<open>
  A school with one class of teacher \<open>T1\<close> and two students: Alice, present on three days
  and absent on two, and Bob, never marked. The same school before any marking.
\<close>

definition att_rec :: "string \<Rightarrow> string \<Rightarrow> string \<Rightarrow> string \<Rightarrow> attendance_doc" where
  "att_rec i student_id date status =
     \<lparr>att_id = i, att_student_id = student_id, att_class_id = ''c1'', att_date = date,
      att_status = status, att_marked_by = ''T1'', att_remarks = None,
      att_created_at = ''2024-01-05T08:00:00'', att_updated_at = ''2024-01-05T08:00:00''\<rparr>"

definition class1 :: class_doc where
  "class1 = \<lparr>c_id = ''c1'', c_name = ''Math'', c_section = ''A'', c_subject = Some ''Algebra'',
             c_teacher_id = ''T1'', c_created_at = ''2024-01-01T00:00:00''\<rparr>"

definition school_world :: world where
  "school_world = empty_world
     \<lparr>classes := [class1],
      students :=
        [\<lparr>s_id = ''sA'', s_name = ''Alice'', s_roll_number = ''1'', s_class_id = ''c1'',
          s_email = None, s_phone = None, s_created_at = ''2024-01-01T00:00:00''\<rparr>,
         \<lparr>s_id = ''sB'', s_name = ''Bob'', s_roll_number = ''2'', s_class_id = ''c1'',
          s_email = None, s_phone = None, s_created_at = ''2024-01-01T00:00:00''\<rparr>],
      attendance :=
        [att_rec ''a1'' ''sA'' ''2024-01-01'' ''present'',
         att_rec ''a2'' ''sA'' ''2024-01-02'' ''present'',
         att_rec ''a3'' ''sA'' ''2024-01-03'' ''present'',
         att_rec ''a4'' ''sA'' ''2024-01-04'' ''absent'',
         att_rec ''a5'' ''sA'' ''2024-01-05'' ''absent'']\<rparr>"

definition no_marks_world :: world where
  "no_marks_world = school_world\<lparr>attendance := []\<rparr>"

text \<open>A collection with a single document, of 2024-01-15.\<close>

definition date_only_world :: world where
  "date_only_world = empty_world\<lparr>attendance := [att_rec ''a1'' ''sA'' ''2024-01-15'' ''present'']\<rparr>"

text \<open>
  10001 documents of one day, for 10001 students, and a class of 1001 students: one
  more than \<^verbatim>\<open>to_list(10000)\<close> and \<^verbatim>\<open>to_list(1000)\<close> fetch.
\<close>

definition crowd_doc :: "nat \<Rightarrow> attendance_doc" where
  "crowd_doc n = att_rec (''a'' @ replicate n (CHR ''i'')) (''s'' @ replicate n (CHR ''i''))
                   ''2024-01-05'' ''present''"

definition crowded_world :: world where
  "crowded_world = empty_world\<lparr>attendance := map crowd_doc [0..<10001]\<rparr>"

definition crowd_student :: "nat \<Rightarrow> student" where
  "crowd_student n =
     \<lparr>s_id = ''s'' @ replicate n (CHR ''i''), s_name = ''Student'',
      s_roll_number = replicate n (CHR ''i''), s_class_id = ''c1'', s_email = None,
      s_phone = None, s_created_at = ''2024-01-01T00:00:00''\<rparr>"

definition crowded_class_world :: world where
  "crowded_class_world = empty_world\<lparr>students := map crowd_student [0..<1001]\<rparr>"

text \<open>
  Entries of a bulk list: two well-formed ones, and one without \<^verbatim>\<open>status\<close>.
\<close>

definition entry_sA :: pydict where
  "entry_sA = [''student_id'' \<mapsto> JStr ''sA'', ''status'' \<mapsto> JStr ''late'']"

definition entry_sC :: pydict where
  "entry_sC = [''student_id'' \<mapsto> JStr ''sC'', ''status'' \<mapsto> JStr ''present'', ''remarks'' \<mapsto> JNull]"

definition entry_bad :: pydict where
  "entry_bad = [''student_id'' \<mapsto> JStr ''sD'']"

section \<open>Facts about the persistence operations\<close>

lemma find_one_None_iff: "find_one P xs = None \<longleftrightarrow> (\<forall>x \<in> set xs. \<not> P x)"
  by (induction xs) auto

lemma find_one_SomeD: "find_one P xs = Some x \<Longrightarrow> x \<in> set xs \<and> P x"
  by (induction xs) (auto split: if_splits)

lemma find_one_append:
  "find_one P (xs @ ys) = (case find_one P xs of None \<Rightarrow> find_one P ys | Some x \<Rightarrow> Some x)"
  by (induction xs) auto

lemma update_one_append_miss:
  "\<forall>x \<in> set xs. \<not> P x \<Longrightarrow> update_one P f (xs @ ys) = xs @ update_one P f ys"
  by (induction xs) auto

lemma length_update_one [simp]: "length (update_one P f xs) = length xs"
  by (induction xs) auto

lemma att_matches_triple [simp]:
  "att_matches (triple_query inp) r \<longleftrightarrow>
     has_triple (ac_student_id inp) (ac_class_id inp) (ac_date inp) r"
  by (simp add: triple_query_def att_field_def has_triple_def)

lemma att_matches_id [simp]: "att_matches [(''id'', Eq i)] r \<longleftrightarrow> att_id r = i"
  by (simp add: att_field_def)

declare att_matches.simps [simp del]

section \<open>The upsert of \<^verbatim>\<open>POST /attendance\<close>\<close>

lemma mark_attendance_create:
  assumes "\<forall>r \<in> set (attendance w). \<not> has_triple (ac_student_id inp) (ac_class_id inp) (ac_date inp) r"
  shows "\<exists>doc. fst (mark_attendance inp u w) = Inr doc
           \<and> attendance (snd (mark_attendance inp u w)) = attendance w @ [doc]
           \<and> att_id doc = uuids w 0 \<and> att_created_at doc = clock w 0
           \<and> att_status doc = ac_status inp \<and> att_remarks doc = ac_remarks inp
           \<and> att_marked_by doc = u_id u
           \<and> has_triple (ac_student_id inp) (ac_class_id inp) (ac_date inp) doc"
proof -
  have "find_one (att_matches (triple_query inp)) (attendance w) = None"
    using assms by (simp add: find_one_None_iff)
  then show ?thesis
    by (simp add: mark_attendance_def new_attendance_def uuid4_def utcnow_def insert_one_def
        has_triple_def)
qed

lemma mark_attendance_update:
  assumes w: "attendance w = pre @ [r]"
    and pre: "\<forall>x \<in> set pre. \<not> has_triple (ac_student_id inp) (ac_class_id inp) (ac_date inp) x"
    and r: "has_triple (ac_student_id inp) (ac_class_id inp) (ac_date inp) r"
    and fresh: "att_id r \<notin> att_id ` set pre"
  shows "mark_attendance inp u w =
           (Inr (set_update_data inp (u_id u) (clock w 0) r),
            w\<lparr>clock := \<lambda>n. clock w (Suc n),
              attendance := pre @ [set_update_data inp (u_id u) (clock w 0) r]\<rparr>)"
proof -
  have f: "find_one (att_matches (triple_query inp)) (attendance w) = Some r"
    using w pre r by (simp add: find_one_append find_one_None_iff[THEN iffD2])
  have miss: "\<forall>x \<in> set pre. \<not> att_matches [(''id'', Eq (att_id r))] x"
    using fresh by (auto simp: image_iff)
  have u: "update_one (att_matches [(''id'', Eq (att_id r))]) g (pre @ [r]) = pre @ [g r]" for g
    using miss by (simp add: update_one_append_miss)
  have idg: "att_id (set_update_data inp m t r) = att_id r" for m t
    by (simp add: set_update_data_def)
  have f2: "find_one (att_matches [(''id'', Eq (att_id r))]) (pre @ [set_update_data inp m t r])
              = Some (set_update_data inp m t r)" for m t
    using miss by (simp add: find_one_append find_one_None_iff[THEN iffD2] idg)
  show ?thesis
    unfolding mark_attendance_def f by (simp add: utcnow_def w u f2)
qed

lemma mark_all_update:
  assumes "attendance w = pre @ [r]"
    and "\<forall>x \<in> set pre. \<not> has_triple s c d x"
    and "has_triple s c d r"
    and "att_id r \<notin> att_id ` set pre"
    and "\<forall>call \<in> set calls. call_for s c d call"
  shows "\<exists>r'. attendance (mark_all calls w) = pre @ [r']
           \<and> has_triple s c d r' \<and> att_id r' = att_id r \<and> att_created_at r' = att_created_at r
           \<and> (if calls = [] then r' = r
              else att_status r' = ac_status (fst (last calls))
                 \<and> att_remarks r' = ac_remarks (fst (last calls))
                 \<and> att_marked_by r' = u_id (snd (last calls)))"
  using assms
proof (induction calls arbitrary: w r)
  case Nil
  then show ?case by (simp add: mark_all_def)
next
  case (Cons call calls)
  obtain inp u where call: "call = (inp, u)" by (cases call)
  have inp: "ac_student_id inp = s" "ac_class_id inp = c" "ac_date inp = d"
    using Cons.prems(5) by (simp_all add: call call_for_def)
  let ?r1 = "set_update_data inp (u_id u) (clock w 0) r"
  let ?w1 = "snd (mark_attendance inp u w)"
  have step: "attendance ?w1 = pre @ [?r1]"
    using mark_attendance_update[of w pre r inp u] Cons.prems(1-4) by (simp add: inp)
  have r1: "has_triple s c d ?r1" "att_id ?r1 = att_id r" "att_created_at ?r1 = att_created_at r"
    "att_status ?r1 = ac_status inp" "att_remarks ?r1 = ac_remarks inp" "att_marked_by ?r1 = u_id u"
    by (simp_all add: set_update_data_def has_triple_def inp)
  have "\<exists>r'. attendance (mark_all calls ?w1) = pre @ [r']
           \<and> has_triple s c d r' \<and> att_id r' = att_id ?r1 \<and> att_created_at r' = att_created_at ?r1
           \<and> (if calls = [] then r' = ?r1
              else att_status r' = ac_status (fst (last calls))
                 \<and> att_remarks r' = ac_remarks (fst (last calls))
                 \<and> att_marked_by r' = u_id (snd (last calls)))"
    using Cons.prems(2,4,5) by (intro Cons.IH[OF step _ r1(1)]) (simp_all add: r1)
  then obtain r' where r': "attendance (mark_all calls ?w1) = pre @ [r']"
    "has_triple s c d r'" "att_id r' = att_id ?r1" "att_created_at r' = att_created_at ?r1"
    "if calls = [] then r' = ?r1
              else att_status r' = ac_status (fst (last calls))
                 \<and> att_remarks r' = ac_remarks (fst (last calls))
                 \<and> att_marked_by r' = u_id (snd (last calls))"
    by blast
  have unfold: "mark_all (call # calls) w = mark_all calls ?w1"
    by (simp add: mark_all_def call)
  show ?case
    unfolding unfold using r' r1 by (cases "calls = []") (auto simp: call)
qed

text \<open>
  Claim C1. Take a triple \<open>(s, c, d)\<close> for which the collection holds no document, and
  a generated id that is not yet in use. After any non-empty sequence of
  \<^verbatim>\<open>POST /attendance\<close> calls for that triple, executed one after the other, exactly
  one document carries the triple; its \<^verbatim>\<open>status\<close>, \<^verbatim>\<open>remarks\<close> and \<^verbatim>\<open>marked_by\<close> are
  those of the last call, and its \<^verbatim>\<open>id\<close> and \<^verbatim>\<open>created_at\<close> are those of the record the
  first call returned.
\<close>

theorem mark_attendance_one_record_per_triple:
  assumes "\<forall>r \<in> set (attendance w). \<not> has_triple s c d r"
    and "uuids w 0 \<notin> att_id ` set (attendance w)"
    and "\<forall>call \<in> set (call # calls). call_for s c d call"
  shows "\<exists>r first. filter (has_triple s c d) (attendance (mark_all (call # calls) w)) = [r]
           \<and> fst (mark_attendance (fst call) (snd call) w) = Inr first
           \<and> att_id r = att_id first \<and> att_created_at r = att_created_at first
           \<and> att_status r = ac_status (fst (last (call # calls)))
           \<and> att_remarks r = ac_remarks (fst (last (call # calls)))
           \<and> att_marked_by r = u_id (snd (last (call # calls)))"
proof -
  have inp: "ac_student_id (fst call) = s" "ac_class_id (fst call) = c" "ac_date (fst call) = d"
    using assms(3) by (simp_all add: call_for_def)
  let ?w1 = "snd (mark_attendance (fst call) (snd call) w)"
  obtain first where first: "fst (mark_attendance (fst call) (snd call) w) = Inr first"
    "attendance ?w1 = attendance w @ [first]" "att_id first = uuids w 0"
    "att_status first = ac_status (fst call)" "att_remarks first = ac_remarks (fst call)"
    "att_marked_by first = u_id (snd call)" "has_triple s c d first"
    using mark_attendance_create[of w "fst call" "snd call"] assms(1) by (auto simp: inp)
  have fresh: "att_id first \<notin> att_id ` set (attendance w)"
    using assms(2) first(3) by simp
  obtain r where r: "attendance (mark_all calls ?w1) = attendance w @ [r]"
    "has_triple s c d r" "att_id r = att_id first" "att_created_at r = att_created_at first"
    "if calls = [] then r = first
              else att_status r = ac_status (fst (last calls))
                 \<and> att_remarks r = ac_remarks (fst (last calls))
                 \<and> att_marked_by r = u_id (snd (last calls))"
    using mark_all_update[OF first(2) assms(1) first(7) fresh, of calls] assms(3) by auto
  have unfold: "mark_all (call # calls) w = mark_all calls ?w1"
    by (simp add: mark_all_def)
  have flt: "filter (has_triple s c d) (attendance w @ [r]) = [r]"
    using assms(1) r(2) by simp
  show ?thesis
    unfolding unfold using first r flt by (cases "calls = []") auto
qed

theorem mark_attendance_one_record_per_triple_witness:
  "\<exists>r. filter (has_triple ''s1'' ''c1'' ''2024-01-05'')
          (attendance (mark_all [(mark_s1 ''present'' None, teacher1),
                                 (mark_s1 ''absent'' (Some ''sick''), teacher2),
                                 (mark_s1 ''late'' (Some ''bus''), teacher1)] empty_world)) = [r]
      \<and> att_id r = ''uuid-'' \<and> att_created_at r = ''2024-01-05T08:00:00''
      \<and> att_status r = ''late'' \<and> att_remarks r = Some ''bus'' \<and> att_marked_by r = ''T1''"
proof -
  have h1: "\<forall>r \<in> set (attendance empty_world). \<not> has_triple ''s1'' ''c1'' ''2024-01-05'' r"
    by (simp add: empty_world_def)
  have h2: "uuids empty_world 0 \<notin> att_id ` set (attendance empty_world)"
    by (simp add: empty_world_def)
  have h3: "\<forall>call \<in> set ((mark_s1 ''present'' None, teacher1) #
                [(mark_s1 ''absent'' (Some ''sick''), teacher2),
                 (mark_s1 ''late'' (Some ''bus''), teacher1)]). call_for ''s1'' ''c1'' ''2024-01-05'' call"
    by (simp add: call_for_def mark_s1_def)
  have first: "fst (mark_attendance (mark_s1 ''present'' None) teacher1 empty_world)
                 = Inr \<lparr>att_id = ''uuid-'', att_student_id = ''s1'', att_class_id = ''c1'',
                        att_date = ''2024-01-05'', att_status = ''present'', att_marked_by = ''T1'',
                        att_remarks = None, att_created_at = ''2024-01-05T08:00:00'',
                        att_updated_at = ''2024-01-05T08:00:00+''\<rparr>"
    by (simp add: mark_attendance_def new_attendance_def uuid4_def utcnow_def insert_one_def
        empty_world_def mark_s1_def teacher1_def)
  show ?thesis
    using mark_attendance_one_record_per_triple [OF h1 h2 h3] first
    by (auto simp: mark_s1_def teacher1_def)
qed

subsection \<open>The invariant over the whole collection\<close>

text \<open>
  Every \<^verbatim>\<open>POST /attendance\<close> call, for any triple, keeps the collection free of
  duplicate triples and duplicate ids; so does any sequence of calls.
\<close>

lemma update_one_keeps_key:
  assumes "\<And>x. x \<in> set xs \<Longrightarrow> P x \<Longrightarrow> key (f x) = key x"
  shows "map key (update_one P f xs) = map key xs"
  using assms by (induction xs) auto

lemma mark_attendance_unique_store:
  assumes inv: "unique_store w"
  shows "unique_store (snd (mark_attendance inp u w))"
proof (cases "find_one (att_matches (triple_query inp)) (attendance w)")
  case None
  then have none: "\<forall>r \<in> set (attendance w). \<not> has_triple (ac_student_id inp) (ac_class_id inp) (ac_date inp) r"
    by (simp add: find_one_None_iff)
  obtain doc where doc: "attendance (snd (mark_attendance inp u w)) = attendance w @ [doc]"
    "att_id doc = uuids w 0" "has_triple (ac_student_id inp) (ac_class_id inp) (ac_date inp) doc"
    using mark_attendance_create[OF none, of u] by blast
  have sup: "uuids (snd (mark_attendance inp u w)) = (\<lambda>n. uuids w (Suc n))"
    using None by (simp add: mark_attendance_def new_attendance_def uuid4_def utcnow_def)
  have t: "triple_of doc \<notin> triple_of ` set (attendance w)"
    using none doc(3) by (auto simp: has_triple_def triple_of_def)
  have i: "att_id doc \<notin> att_id ` set (attendance w)"
    using inv doc(2) by (simp add: unique_store_def)
  have inj: "inj (\<lambda>n. uuids w (Suc n))"
    using inv by (auto simp: unique_store_def inj_def)
  have fresh: "\<forall>n. uuids w (Suc n) \<notin> att_id ` set (attendance w @ [doc])"
    using inv doc(2) by (auto simp: unique_store_def inj_def)
  show ?thesis
    using inv t i inj fresh by (simp add: unique_store_def doc(1) sup)
next
  case (Some existing)
  let ?P = "att_matches [(''id'', Eq (att_id existing))]"
  let ?f = "set_update_data inp (u_id u) (clock w 0)"
  have ex: "existing \<in> set (attendance w)"
    "has_triple (ac_student_id inp) (ac_class_id inp) (ac_date inp) existing"
    using find_one_SomeD[OF Some] by simp_all
  have same: "x = existing" if "x \<in> set (attendance w)" "?P x" for x
    using that ex(1) inv by (auto simp: unique_store_def distinct_map inj_on_def)
  have att: "attendance (snd (mark_attendance inp u w)) = update_one ?P ?f (attendance w)"
    and sup: "uuids (snd (mark_attendance inp u w)) = uuids w"
    using Some by (simp_all add: mark_attendance_def utcnow_def Let_def split: option.splits)
  have kt: "map triple_of (update_one ?P ?f (attendance w)) = map triple_of (attendance w)"
  proof (rule update_one_keeps_key)
    fix x assume "x \<in> set (attendance w)" "?P x"
    then have "x = existing" by (rule same)
    then show "triple_of (?f x) = triple_of x"
      using ex(2) by (simp add: triple_of_def set_update_data_def has_triple_def)
  qed
  have ki: "map att_id (update_one ?P ?f (attendance w)) = map att_id (attendance w)"
    by (rule update_one_keeps_key) (simp add: set_update_data_def)
  have ids: "att_id ` set (update_one ?P ?f (attendance w)) = att_id ` set (attendance w)"
    using ki by (metis list.set_map)
  show ?thesis
    using inv by (simp add: unique_store_def att sup kt ki ids)
qed

lemma mark_all_unique_store:
  "unique_store w \<Longrightarrow> unique_store (mark_all calls w)"
  by (induction calls arbitrary: w) (simp_all add: mark_all_def mark_attendance_unique_store)

section \<open>Class update and delete\<close>

lemma find_one_update_one:
  "(\<And>x. P x \<Longrightarrow> P (f x)) \<Longrightarrow> find_one P (update_one P f xs) = map_option f (find_one P xs)"
  by (induction xs) auto

lemma delete_one_found: "find_one P xs = Some x \<Longrightarrow> fst (delete_one P xs) = 1"
  by (induction xs) (auto split: if_splits prod.splits)

text \<open>
  Claim C7. For \<^verbatim>\<open>PUT /classes/{class_id}\<close> and \<^verbatim>\<open>DELETE /classes/{class_id}\<close>: when no
  class has the given id, every caller gets 404 "Class not found", whatever the role
  and the ownership (the existence check comes first); when the class exists, a caller
  with role \<^verbatim>\<open>teacher\<close> whose id is not the class's \<^verbatim>\<open>teacher_id\<close> gets 403 and nothing
  is changed; a caller with role \<^verbatim>\<open>admin\<close> succeeds on any class, the update returning
  the class with the new data and the delete its success message.
\<close>

theorem class_update_delete_authorization:
  "(find_one (\<lambda>c. c_id c = class_id) (classes w) = None \<longrightarrow>
      update_class class_id class_input current_user w
        = (Inl (HTTPException 404 ''Class not found''), w)
      \<and> delete_class class_id current_user w = (Inl (HTTPException 404 ''Class not found''), w))
   \<and> (find_one (\<lambda>c. c_id c = class_id) (classes w) = Some existing
        \<and> u_role current_user = ''teacher'' \<and> c_teacher_id existing \<noteq> u_id current_user \<longrightarrow>
      update_class class_id class_input current_user w
        = (Inl (HTTPException 403 ''Not authorized to update this class''), w)
      \<and> delete_class class_id current_user w
        = (Inl (HTTPException 403 ''Not authorized to delete this class''), w))
   \<and> (find_one (\<lambda>c. c_id c = class_id) (classes w) = Some existing
        \<and> u_role current_user = ''admin'' \<longrightarrow>
      fst (update_class class_id class_input current_user w)
        = Inr (set_class_data class_input existing)
      \<and> fst (delete_class class_id current_user w) = Inr ''Class deleted successfully'')"
proof (intro conjI impI)
  assume "find_one (\<lambda>c. c_id c = class_id) (classes w) = None"
  then show "update_class class_id class_input current_user w
        = (Inl (HTTPException 404 ''Class not found''), w)"
    and "delete_class class_id current_user w = (Inl (HTTPException 404 ''Class not found''), w)"
    by (simp_all add: update_class_def delete_class_def)
next
  assume a: "find_one (\<lambda>c. c_id c = class_id) (classes w) = Some existing
        \<and> u_role current_user = ''teacher'' \<and> c_teacher_id existing \<noteq> u_id current_user"
  then show "update_class class_id class_input current_user w
        = (Inl (HTTPException 403 ''Not authorized to update this class''), w)"
    and "delete_class class_id current_user w
        = (Inl (HTTPException 403 ''Not authorized to delete this class''), w)"
    by (simp_all add: update_class_def delete_class_def)
next
  assume a: "find_one (\<lambda>c. c_id c = class_id) (classes w) = Some existing
        \<and> u_role current_user = ''admin''"
  have keep: "\<And>x. c_id x = class_id \<Longrightarrow> c_id (set_class_data class_input x) = class_id"
    by (simp add: set_class_data_def)
  have "find_one (\<lambda>c. c_id c = class_id)
          (update_one (\<lambda>c. c_id c = class_id) (set_class_data class_input) (classes w))
        = Some (set_class_data class_input existing)"
    using a find_one_update_one[of "\<lambda>c. c_id c = class_id" "set_class_data class_input" "classes w"] keep
    by simp
  then show "fst (update_class class_id class_input current_user w)
        = Inr (set_class_data class_input existing)"
    using a by (simp add: update_class_def)
  have "fst (delete_one (\<lambda>c. c_id c = class_id) (classes w)) = 1"
    using a delete_one_found by fastforce
  then show "fst (delete_class class_id current_user w) = Inr ''Class deleted successfully''"
    using a by (auto simp: delete_class_def Let_def split: prod.splits)
qed

theorem class_update_delete_authorization_witness:
  "update_class ''c9'' new_math teacher2 school_world
     = (Inl (HTTPException 404 ''Class not found''), school_world)
   \<and> delete_class ''c9'' teacher2 school_world
     = (Inl (HTTPException 404 ''Class not found''), school_world)
   \<and> update_class ''c1'' new_math teacher2 school_world
     = (Inl (HTTPException 403 ''Not authorized to update this class''), school_world)
   \<and> delete_class ''c1'' teacher2 school_world
     = (Inl (HTTPException 403 ''Not authorized to delete this class''), school_world)
   \<and> fst (update_class ''c1'' new_math admin1 school_world) = Inr (set_class_data new_math class1)
   \<and> fst (delete_class ''c1'' admin1 school_world) = Inr ''Class deleted successfully''"
proof -
  have none: "find_one (\<lambda>c. c_id c = ''c9'') (classes school_world) = None"
    by (simp add: school_world_def class1_def)
  have some: "find_one (\<lambda>c. c_id c = ''c1'') (classes school_world) = Some class1"
    by (simp add: school_world_def class1_def)
  have t2: "u_role teacher2 = ''teacher'' \<and> c_teacher_id class1 \<noteq> u_id teacher2"
    by (simp add: teacher2_def class1_def)
  have a1: "u_role admin1 = ''admin''"
    by (simp add: admin1_def)
  show ?thesis
    using class_update_delete_authorization [of "''c9''" school_world new_math teacher2 class1]
      class_update_delete_authorization [of "''c1''" school_world new_math teacher2 class1]
      class_update_delete_authorization [of "''c1''" school_world new_math admin1 class1]
      none some t2 a1
    by simp
qed

section \<open>Query filters of \<^verbatim>\<open>GET /attendance\<close>\<close>

lemma att_matches_attendance_query:
  "att_matches (attendance_query class_id student_id date start_date end_date) r \<longleftrightarrow>
     (truthy class_id \<longrightarrow> att_class_id r = opt_val class_id)
   \<and> (truthy student_id \<longrightarrow> att_student_id r = opt_val student_id)
   \<and> (if truthy date then att_date r = opt_val date
      else if truthy start_date \<and> truthy end_date
      then opt_val start_date \<le> att_date r \<and> att_date r \<le> opt_val end_date
      else True)"
  by (auto simp: attendance_query_def att_matches.simps att_field_def)

lemma att_matches_attendance_query_fun:
  "att_matches (attendance_query class_id student_id date start_date end_date) =
     (\<lambda>r. (truthy class_id \<longrightarrow> att_class_id r = opt_val class_id)
        \<and> (truthy student_id \<longrightarrow> att_student_id r = opt_val student_id)
        \<and> (if truthy date then att_date r = opt_val date
           else if truthy start_date \<and> truthy end_date
           then opt_val start_date \<le> att_date r \<and> att_date r \<le> opt_val end_date
           else True))"
  by (rule ext) (rule att_matches_attendance_query)

text \<open>
  Claim C10. In \<^verbatim>\<open>GET /attendance\<close>, when no exact date is given (\<^verbatim>\<open>None\<close> or empty) and
  one of \<^verbatim>\<open>start_date\<close>, \<^verbatim>\<open>end_date\<close> is missing (\<^verbatim>\<open>None\<close> or empty), no condition on the
  date enters the filter: the result is the same as with neither bound, namely the
  documents matching the non-empty \<^verbatim>\<open>class_id\<close> and \<^verbatim>\<open>student_id\<close> filters alone, whatever
  their dates, in storage order and up to the fetch limit of 10000.
\<close>

theorem get_attendance_single_bound_ignored:
  assumes "\<not> truthy date" and "\<not> truthy start_date \<or> \<not> truthy end_date"
  shows "get_attendance class_id student_id date start_date end_date w
           = get_attendance class_id student_id date None None w
       \<and> get_attendance class_id student_id date start_date end_date w
           = take 10000 (filter (\<lambda>r. (truthy class_id \<longrightarrow> att_class_id r = opt_val class_id)
                                     \<and> (truthy student_id \<longrightarrow> att_student_id r = opt_val student_id))
                          (attendance w))"
  using assms by (auto simp: get_attendance_def find_to_list_def att_matches_attendance_query_fun)

theorem get_attendance_single_bound_ignored_witness:
  "get_attendance (Some ''c1'') None None (Some ''2024-01-03'') None school_world
     = get_attendance (Some ''c1'') None None None None school_world
   \<and> get_attendance (Some ''c1'') None None (Some ''2024-01-03'') None school_world
     = attendance school_world
   \<and> get_attendance (Some ''c1'') None None None (Some ''2024-01-03'') school_world
     = attendance school_world"
proof -
  have h1: "\<not> truthy None" by simp
  have h2: "\<not> truthy (Some ''2024-01-03'') \<or> \<not> truthy None" by simp
  have h3: "\<not> truthy None \<or> \<not> truthy (Some ''2024-01-03'')" by simp
  note lower = get_attendance_single_bound_ignored [OF h1 h2, of "Some ''c1''" None school_world]
  note upper = get_attendance_single_bound_ignored [OF h1 h3, of "Some ''c1''" None school_world]
  have a: "get_attendance (Some ''c1'') None None (Some ''2024-01-03'') None school_world
             = attendance school_world"
    unfolding lower [THEN conjunct2]
    by (simp add: school_world_def empty_world_def att_rec_def)
  have b: "get_attendance (Some ''c1'') None None None (Some ''2024-01-03'') school_world
             = attendance school_world"
    unfolding upper [THEN conjunct2]
    by (simp add: school_world_def empty_world_def att_rec_def)
  from lower [THEN conjunct1] a b show ?thesis by blast
qed

text \<open>
  Claim C6, as amended. In \<^verbatim>\<open>GET /attendance\<close>, when a non-empty exact date is given,
  \<^verbatim>\<open>start_date\<close> and \<^verbatim>\<open>end_date\<close> are ignored whatever they are: the result is the same
  as with no range, namely the documents with that date that also match the non-empty
  \<^verbatim>\<open>class_id\<close> and \<^verbatim>\<open>student_id\<close> filters, in storage order and up to the fetch limit of
  10000.
\<close>

theorem get_attendance_date_precedence:
  assumes "truthy date"
  shows "get_attendance class_id student_id date start_date end_date w
           = get_attendance class_id student_id date None None w
       \<and> get_attendance class_id student_id date start_date end_date w
           = take 10000 (filter (\<lambda>r. (truthy class_id \<longrightarrow> att_class_id r = opt_val class_id)
                                     \<and> (truthy student_id \<longrightarrow> att_student_id r = opt_val student_id)
                                     \<and> att_date r = opt_val date)
                          (attendance w))"
  using assms
  by (auto simp: get_attendance_def find_to_list_def att_matches_attendance_query_fun
      intro!: arg_cong[where f="take 10000"] filter_cong)

theorem get_attendance_date_precedence_witness:
  "get_attendance (Some ''c1'') None (Some ''2024-01-02'') (Some ''2024-01-04'') (Some ''2024-01-05'')
     school_world = [att_rec ''a2'' ''sA'' ''2024-01-02'' ''present'']"
proof -
  have h: "truthy (Some ''2024-01-02'')" by simp
  note both = get_attendance_date_precedence [OF h, of "Some ''c1''" None "Some ''2024-01-04''"
      "Some ''2024-01-05''" school_world]
  show ?thesis
    unfolding both [THEN conjunct2]
    by (simp add: school_world_def empty_world_def att_rec_def)
qed

lemma crowd_on_date: "filter (on_date ''2024-01-05'') (attendance crowded_world) = attendance crowded_world"
  by (simp add: crowded_world_def empty_world_def on_date_def crowd_doc_def att_rec_def)

text \<open>
  Claim C6 as stated fails in two places. A date that is supplied but empty does not
  take precedence: the range is applied, and the document of 2024-01-15 is returned
  although no document has the empty date. And with 10001 documents on the requested
  date only 10000 are returned.
\<close>

theorem get_attendance_date_precedence_counterexample:
  "get_attendance None None (Some []) (Some ''2024-01-01'') (Some ''2024-01-31'') date_only_world
     = [att_rec ''a1'' ''sA'' ''2024-01-15'' ''present'']
   \<and> filter (on_date []) (attendance date_only_world) = []
   \<and> length (get_attendance None None (Some ''2024-01-05'') (Some ''2024-01-01'') (Some ''2024-01-31'')
               crowded_world) = 10000
   \<and> length (filter (on_date ''2024-01-05'') (attendance crowded_world)) = 10001"
proof -
  have a: "get_attendance None None (Some []) (Some ''2024-01-01'') (Some ''2024-01-31'') date_only_world
     = [att_rec ''a1'' ''sA'' ''2024-01-15'' ''present'']"
    by (simp add: get_attendance_def find_to_list_def att_matches_attendance_query_fun
        date_only_world_def empty_world_def att_rec_def)
  have b: "filter (on_date []) (attendance date_only_world) = []"
    by (simp add: date_only_world_def empty_world_def att_rec_def on_date_def)
  have m: "filter (att_matches (attendance_query None None (Some ''2024-01-05'')
                     (Some ''2024-01-01'') (Some ''2024-01-31''))) (attendance crowded_world)
            = attendance crowded_world"
    by (simp add: att_matches_attendance_query_fun crowded_world_def empty_world_def crowd_doc_def att_rec_def)
  have n: "length (attendance crowded_world) = 10001"
    by (simp add: crowded_world_def empty_world_def)
  have c: "length (get_attendance None None (Some ''2024-01-05'') (Some ''2024-01-01'') (Some ''2024-01-31'')
               crowded_world) = 10000"
    unfolding get_attendance_def find_to_list_def m by (simp add: n)
  have d: "length (filter (on_date ''2024-01-05'') (attendance crowded_world)) = 10001"
    by (simp add: crowd_on_date n)
  from a b c d show ?thesis by blast
qed

section \<open>Bulk marking\<close>

lemma attendance_create_of_wf:
  "wf_entry record \<Longrightarrow> attendance_create_of record c d = Inr (entry_input record c d)"
  by (auto simp: wf_entry_def attendance_create_of_def getitem_def entry_input_def
      entry_student_id_def entry_status_def split: option.splits)

lemma attendance_create_of_bad:
  "\<not> wf_entry record \<Longrightarrow> \<exists>e. attendance_create_of record c d = Inl e"
  by (auto simp: wf_entry_def attendance_create_of_def getitem_def Let_def split: option.splits)

lemma attendance_create_of_error:
  "attendance_create_of record c d = Inl e \<Longrightarrow> (\<exists>k. e = KeyError k) \<or> (\<exists>m. e = ValidationError m)"
  by (auto simp: attendance_create_of_def getitem_def Let_def split: option.splits if_splits)

lemma bulk_loop_append:
  "bulk_loop c d u (xs @ ys) acc w =
     (case bulk_loop c d u xs acc w of
        (Inl e, w') \<Rightarrow> (Inl e, w')
      | (Inr acc', w') \<Rightarrow> bulk_loop c d u ys acc' w')"
  by (induction xs arbitrary: acc w) (auto split: sum.splits option.splits prod.splits)

text \<open>One iteration on a well-formed entry.\<close>

lemma bulk_loop_single:
  assumes "wf_entry record"
  shows "\<exists>w'. bulk_loop c d u [record] acc w =
           (Inr (acc @ [\<lparr>br_student_id = entry_student_id record,
                         br_action = (if \<exists>r \<in> set (attendance w).
                                            has_triple (entry_student_id record) c d r
                                      then ''updated'' else ''created'')\<rparr>]), w')
         \<and> ((\<exists>r \<in> set (attendance w). has_triple (entry_student_id record) c d r)
              \<longrightarrow> length (attendance w') = length (attendance w))"
proof (cases "find_one (att_matches (triple_query (entry_input record c d))) (attendance w)")
  case None
  then have "\<not> (\<exists>r \<in> set (attendance w). has_triple (entry_student_id record) c d r)"
    by (simp add: find_one_None_iff entry_input_def)
  then show ?thesis
    using None assms
    by (simp add: attendance_create_of_wf entry_input_def split: prod.splits)
next
  case (Some existing)
  then have "\<exists>r \<in> set (attendance w). has_triple (entry_student_id record) c d r"
    using find_one_SomeD[OF Some] by (auto simp: entry_input_def)
  then show ?thesis
    using Some assms
    by (simp add: attendance_create_of_wf entry_input_def utcnow_def split: prod.splits)
qed

lemma bulk_loop_wf:
  assumes "\<forall>x \<in> set xs. wf_entry x"
  shows "\<exists>res w'. bulk_loop c d u xs acc w = (Inr (acc @ res), w') \<and> length res = length xs"
  using assms
proof (induction xs arbitrary: acc w)
  case Nil
  then show ?case by simp
next
  case (Cons x xs)
  obtain w1 e where one: "bulk_loop c d u [x] acc w = (Inr (acc @ [e]), w1)"
    using bulk_loop_single[of x c d u acc w] Cons.prems by auto
  obtain res w' where rest: "bulk_loop c d u xs (acc @ [e]) w1 = (Inr ((acc @ [e]) @ res), w')"
    "length res = length xs"
    using Cons.IH[of "acc @ [e]" w1] Cons.prems by auto
  have "bulk_loop c d u (x # xs) acc w = (Inr (acc @ (e # res)), w')"
    using bulk_loop_append[of c d u "[x]" xs acc w] one rest by simp
  then show ?case using rest(2) by (intro exI[of _ "e # res"] exI[of _ w']) simp
qed

lemma bulk_loop_error:
  "fst (bulk_loop c d u xs acc w) = Inl e \<Longrightarrow> (\<exists>k. e = KeyError k) \<or> (\<exists>m. e = ValidationError m)"
proof (induction xs arbitrary: acc w)
  case Nil
  then show ?case by simp
next
  case (Cons x xs)
  show ?case
  proof (cases "attendance_create_of x c d")
    case (Inl e')
    then show ?thesis using Cons.prems attendance_create_of_error[OF Inl] by simp
  next
    case (Inr inp)
    then show ?thesis
      using Cons.prems Cons.IH
      by (auto split: option.splits prod.splits)
  qed
qed

lemma mark_bulk_attendance_loop:
  "mark_bulk_attendance (bulk_input c d records) u w =
     (case bulk_loop c d u records [] w of
        (Inl e, w') \<Rightarrow> (Inl e, w')
      | (Inr results, w') \<Rightarrow>
          (Inr \<lparr>br_message = ''Bulk attendance marked successfully'', br_results = results\<rparr>, w'))"
  by (simp add: mark_bulk_attendance_def bulk_input_def)

text \<open>
  Claim C5. For a list of \<open>N\<close> well-formed entries, \<^verbatim>\<open>POST /attendance/bulk\<close> returns \<open>N\<close>
  result entries in the order of the input: entry \<open>i\<close> names the student of input \<open>i\<close>,
  and its action is \<^verbatim>\<open>updated\<close> when the collection, as it is after the entries before
  \<open>i\<close> have been processed, holds a document for that student, class and date, and
  \<^verbatim>\<open>created\<close> otherwise. The empty list gives the empty result list and changes
  nothing.
\<close>

theorem mark_bulk_attendance_results:
  assumes "\<forall>record \<in> set records. wf_entry record"
  shows "mark_bulk_attendance (bulk_input c d []) u w
           = (Inr \<lparr>br_message = ''Bulk attendance marked successfully'', br_results = []\<rparr>, w)
       \<and> (\<exists>resp. fst (mark_bulk_attendance (bulk_input c d records) u w) = Inr resp
           \<and> length (br_results resp) = length records
           \<and> (\<forall>i < length records.
                 br_student_id (br_results resp ! i) = entry_student_id (records ! i)
               \<and> br_action (br_results resp ! i) =
                   (if \<exists>r \<in> set (attendance
                                   (snd (mark_bulk_attendance (bulk_input c d (take i records)) u w))).
                         has_triple (entry_student_id (records ! i)) c d r
                    then ''updated'' else ''created'')))"
proof -
  obtain res w' where full: "bulk_loop c d u records [] w = (Inr res, w')"
    "length res = length records"
    using bulk_loop_wf[OF assms, of c d u "[]" w] by auto
  have each: "br_student_id (res ! i) = entry_student_id (records ! i)
      \<and> br_action (res ! i) =
          (if \<exists>r \<in> set (attendance (snd (mark_bulk_attendance (bulk_input c d (take i records)) u w))).
                has_triple (entry_student_id (records ! i)) c d r
           then ''updated'' else ''created'')" if i: "i < length records" for i
  proof -
    have split: "records = take i records @ [records ! i] @ drop (Suc i) records"
      using i by (simp add: Cons_nth_drop_Suc)
    have wfp: "\<forall>x \<in> set (take i records). wf_entry x"
      using assms by (auto dest: in_set_takeD)
    obtain resi wi where pre: "bulk_loop c d u (take i records) [] w = (Inr resi, wi)"
      "length resi = i"
      using bulk_loop_wf[OF wfp, of c d u "[]" w] i by auto
    have wi: "snd (mark_bulk_attendance (bulk_input c d (take i records)) u w) = wi"
      by (simp add: mark_bulk_attendance_loop pre)
    let ?e = "\<lparr>br_student_id = entry_student_id (records ! i),
               br_action = (if \<exists>r \<in> set (attendance wi).
                                  has_triple (entry_student_id (records ! i)) c d r
                            then ''updated'' else ''created'')\<rparr>"
    obtain wi' where one: "bulk_loop c d u [records ! i] resi wi = (Inr (resi @ [?e]), wi')"
      using bulk_loop_single[of "records ! i" c d u resi wi] assms i by auto
    have wfd: "\<forall>x \<in> set (drop (Suc i) records). wf_entry x"
      using assms by (auto dest: in_set_dropD)
    obtain rest w'' where post:
      "bulk_loop c d u (drop (Suc i) records) (resi @ [?e]) wi' = (Inr ((resi @ [?e]) @ rest), w'')"
      using bulk_loop_wf[OF wfd, of c d u "resi @ [?e]" wi'] by auto
    have "bulk_loop c d u (take i records @ [records ! i] @ drop (Suc i) records) [] w
            = (Inr ((resi @ [?e]) @ rest), w'')"
      by (simp only: bulk_loop_append pre one post prod.case sum.case)
    then have "res = (resi @ [?e]) @ rest"
      using full(1) split by simp
    then have "res ! i = ?e"
      using pre(2) by (simp add: nth_append)
    then show ?thesis by (simp add: wi)
  qed
  have "fst (mark_bulk_attendance (bulk_input c d records) u w)
          = Inr \<lparr>br_message = ''Bulk attendance marked successfully'', br_results = res\<rparr>"
    by (simp add: mark_bulk_attendance_loop full)
  moreover have "mark_bulk_attendance (bulk_input c d []) u w
           = (Inr \<lparr>br_message = ''Bulk attendance marked successfully'', br_results = []\<rparr>, w)"
    by (simp add: mark_bulk_attendance_loop)
  ultimately show ?thesis
    using full(2) each by simp
qed

text \<open>
  Claim C9. When the entries before position \<open>k\<close> are well-formed and the entry at \<open>k\<close>
  is malformed, \<^verbatim>\<open>POST /attendance/bulk\<close> fails with the error of that entry, and the
  state it leaves is the state reached by processing the entries before \<open>k\<close>: their
  writes stay, nothing is rolled back.
\<close>

theorem mark_bulk_attendance_not_atomic:
  assumes "\<forall>record \<in> set pre. wf_entry record" and "\<not> wf_entry bad"
  shows "\<exists>e. attendance_create_of bad c d = Inl e
           \<and> mark_bulk_attendance (bulk_input c d (pre @ bad # post)) u w
               = (Inl e, snd (mark_bulk_attendance (bulk_input c d pre) u w))"
proof -
  obtain res w' where pre: "bulk_loop c d u pre [] w = (Inr res, w')"
    using bulk_loop_wf[OF assms(1), of c d u "[]" w] by auto
  obtain e where e: "attendance_create_of bad c d = Inl e"
    using attendance_create_of_bad[OF assms(2)] by blast
  then have "bulk_loop c d u (bad # post) res w' = (Inl e, w')"
    by simp
  then have "bulk_loop c d u (pre @ bad # post) [] w = (Inl e, w')"
    by (simp add: bulk_loop_append pre)
  then show ?thesis
    using e by (simp add: mark_bulk_attendance_loop pre)
qed

lemma mark_attendance_existing:
  assumes "\<exists>r \<in> set (attendance w). has_triple (ac_student_id inp) (ac_class_id inp) (ac_date inp) r"
  shows "\<exists>updated. fst (mark_attendance inp u w) = Inr updated
           \<and> has_triple (ac_student_id inp) (ac_class_id inp) (ac_date inp) updated
           \<and> att_status updated = ac_status inp \<and> att_remarks updated = ac_remarks inp
           \<and> att_marked_by updated = u_id u
           \<and> updated \<in> set (attendance (snd (mark_attendance inp u w)))
           \<and> length (attendance (snd (mark_attendance inp u w))) = length (attendance w)"
proof -
  obtain existing where ex: "find_one (att_matches (triple_query inp)) (attendance w) = Some existing"
    using assms by (cases "find_one (att_matches (triple_query inp)) (attendance w)")
      (auto simp: find_one_None_iff)
  let ?P = "att_matches [(''id'', Eq (att_id existing))]"
  let ?f = "set_update_data inp (u_id u) (clock w 0)"
  have keep: "\<And>x. ?P x \<Longrightarrow> ?P (?f x)"
    by (simp add: set_update_data_def)
  have "existing \<in> set (attendance w)" "?P existing"
    using find_one_SomeD[OF ex] by simp_all
  then obtain x0 where x0: "find_one ?P (attendance w) = Some x0"
    by (cases "find_one ?P (attendance w)") (auto simp: find_one_None_iff)
  have found: "find_one ?P (update_one ?P ?f (attendance w)) = Some (?f x0)"
    using find_one_update_one[of ?P ?f "attendance w"] keep x0 by simp
  have res: "mark_attendance inp u w =
      (Inr (?f x0), w\<lparr>clock := \<lambda>n. clock w (Suc n),
                      attendance := update_one ?P ?f (attendance w)\<rparr>)"
    unfolding mark_attendance_def ex by (simp add: utcnow_def found)
  have "?f x0 \<in> set (update_one ?P ?f (attendance w))"
    using find_one_SomeD[OF found] by simp
  then show ?thesis
    unfolding res by (simp add: set_update_data_def has_triple_def)
qed

lemma mark_attendance_error:
  "fst (mark_attendance inp u w) = Inl e \<Longrightarrow> e = TypeError"
  by (auto simp: mark_attendance_def Let_def split: option.splits prod.splits)

lemma bulk_loop_single_overwrite:
  assumes wf: "wf_entry entry"
    and ex: "\<exists>r \<in> set (attendance w). has_triple (entry_student_id entry) c d r"
  shows "\<exists>w'. bulk_loop c d u [entry] acc w =
           (Inr (acc @ [\<lparr>br_student_id = entry_student_id entry, br_action = ''updated''\<rparr>]), w')
         \<and> map att_id (attendance w') = map att_id (attendance w)
         \<and> (\<exists>r \<in> set (attendance w').
               has_triple (entry_student_id entry) c d r
             \<and> att_status r = entry_status entry
             \<and> att_remarks r = opt_str_of (entry ''remarks'')
             \<and> att_marked_by r = u_id u)"
proof -
  let ?inp = "entry_input entry c d"
  obtain existing where found: "find_one (att_matches (triple_query ?inp)) (attendance w) = Some existing"
    using ex by (cases "find_one (att_matches (triple_query ?inp)) (attendance w)")
      (auto simp: find_one_None_iff entry_input_def)
  let ?P = "att_matches [(''id'', Eq (att_id existing))]"
  let ?f = "set_update_data ?inp (u_id u) (clock w 0)"
  let ?w' = "w\<lparr>clock := \<lambda>n. clock w (Suc n), attendance := update_one ?P ?f (attendance w)\<rparr>"
  have run: "bulk_loop c d u [entry] acc w =
      (Inr (acc @ [\<lparr>br_student_id = entry_student_id entry, br_action = ''updated''\<rparr>]), ?w')"
    using found wf by (simp add: attendance_create_of_wf utcnow_def entry_input_def)
  have keep: "\<And>x. ?P x \<Longrightarrow> ?P (?f x)"
    by (simp add: set_update_data_def)
  have "existing \<in> set (attendance w)" "?P existing"
    using find_one_SomeD[OF found] by simp_all
  then obtain x0 where x0: "find_one ?P (attendance w) = Some x0"
    by (cases "find_one ?P (attendance w)") (auto simp: find_one_None_iff)
  have "find_one ?P (update_one ?P ?f (attendance w)) = Some (?f x0)"
    using find_one_update_one[of ?P ?f "attendance w"] keep x0 by simp
  then have mem: "?f x0 \<in> set (attendance ?w')"
    using find_one_SomeD by fastforce
  have fields: "has_triple (entry_student_id entry) c d (?f x0)"
    "att_status (?f x0) = entry_status entry"
    "att_remarks (?f x0) = opt_str_of (entry ''remarks'')"
    "att_marked_by (?f x0) = u_id u"
    by (simp_all add: set_update_data_def has_triple_def entry_input_def)
  have ids: "map att_id (attendance ?w') = map att_id (attendance w)"
    using update_one_keeps_key[of "attendance w" ?P att_id ?f] by (simp add: set_update_data_def)
  show ?thesis
    using run mem fields ids by blast
qed

lemma mark_attendance_existing_ids:
  assumes "\<exists>r \<in> set (attendance w). has_triple (ac_student_id inp) (ac_class_id inp) (ac_date inp) r"
  shows "map att_id (attendance (snd (mark_attendance inp u w))) = map att_id (attendance w)"
proof -
  obtain existing where ex: "find_one (att_matches (triple_query inp)) (attendance w) = Some existing"
    using assms by (cases "find_one (att_matches (triple_query inp)) (attendance w)")
      (auto simp: find_one_None_iff)
  let ?P = "att_matches [(''id'', Eq (att_id existing))]"
  let ?f = "set_update_data inp (u_id u) (clock w 0)"
  have "attendance (snd (mark_attendance inp u w)) = update_one ?P ?f (attendance w)"
    using ex by (simp add: mark_attendance_def utcnow_def Let_def split: option.splits)
  then show ?thesis
    using update_one_keeps_key[of "attendance w" ?P att_id ?f] by (simp add: set_update_data_def)
qed

lemma mark_bulk_attendance_last:
  assumes pre: "\<forall>x \<in> set pre. wf_entry x" and wf: "wf_entry entry"
    and ex: "\<exists>r \<in> set (attendance (snd (mark_bulk_attendance (bulk_input c d pre) u w))).
               has_triple (entry_student_id entry) c d r"
  shows "\<exists>resp. fst (mark_bulk_attendance (bulk_input c d (pre @ [entry])) u w) = Inr resp
           \<and> length (br_results resp) = Suc (length pre)
           \<and> last (br_results resp)
               = \<lparr>br_student_id = entry_student_id entry, br_action = ''updated''\<rparr>
           \<and> map att_id (attendance (snd (mark_bulk_attendance (bulk_input c d (pre @ [entry])) u w)))
               = map att_id (attendance (snd (mark_bulk_attendance (bulk_input c d pre) u w)))
           \<and> (\<exists>r \<in> set (attendance (snd (mark_bulk_attendance (bulk_input c d (pre @ [entry])) u w))).
                 has_triple (entry_student_id entry) c d r
               \<and> att_status r = entry_status entry
               \<and> att_remarks r = opt_str_of (entry ''remarks'')
               \<and> att_marked_by r = u_id u)"
proof -
  obtain res w1 where p: "bulk_loop c d u pre [] w = (Inr ([] @ res), w1)" "length res = length pre"
    using bulk_loop_wf[OF pre, of c d u "[]" w] by blast
  have w1: "snd (mark_bulk_attendance (bulk_input c d pre) u w) = w1"
    using p by (simp add: mark_bulk_attendance_loop)
  have ex1: "\<exists>r \<in> set (attendance w1). has_triple (entry_student_id entry) c d r"
    using ex by (simp add: w1)
  obtain w' where one: "bulk_loop c d u [entry] res w1 =
           (Inr (res @ [\<lparr>br_student_id = entry_student_id entry, br_action = ''updated''\<rparr>]), w')"
    and ids: "map att_id (attendance w') = map att_id (attendance w1)"
    and r: "\<exists>r \<in> set (attendance w').
               has_triple (entry_student_id entry) c d r
             \<and> att_status r = entry_status entry
             \<and> att_remarks r = opt_str_of (entry ''remarks'')
             \<and> att_marked_by r = u_id u"
    using bulk_loop_single_overwrite[OF wf ex1, of u res] by blast
  have "bulk_loop c d u (pre @ [entry]) [] w =
          (Inr (res @ [\<lparr>br_student_id = entry_student_id entry, br_action = ''updated''\<rparr>]), w')"
    using p one by (simp add: bulk_loop_append)
  then have full: "mark_bulk_attendance (bulk_input c d (pre @ [entry])) u w =
      (Inr \<lparr>br_message = ''Bulk attendance marked successfully'',
            br_results = res @ [\<lparr>br_student_id = entry_student_id entry, br_action = ''updated''\<rparr>]\<rparr>,
       w')"
    by (simp add: mark_bulk_attendance_loop)
  show ?thesis
    unfolding full w1 using ids r p(2) by simp
qed

text \<open>
  Claim C8. Neither \<^verbatim>\<open>POST /attendance\<close> nor \<^verbatim>\<open>POST /attendance/bulk\<close> ever fails with
  an HTTP error, so never with a conflict, and a duplicate mark overwrites. When a
  document already exists for the triple, \<^verbatim>\<open>POST /attendance\<close> succeeds and returns a
  stored document with the triple and the new \<^verbatim>\<open>status\<close>, \<^verbatim>\<open>remarks\<close> and \<^verbatim>\<open>marked_by\<close>,
  and the collection holds the same ids in the same order as before: nothing is
  inserted. A bulk entry for a triple that exists when the entry is processed, alone or
  after any well-formed entries, is reported as \<^verbatim>\<open>updated\<close>; afterwards the collection
  again holds the same ids as just before the entry, and a stored document carries the
  triple with the entry's \<^verbatim>\<open>status\<close> and \<^verbatim>\<open>remarks\<close> and the caller as \<^verbatim>\<open>marked_by\<close>. A
  bulk list of well-formed entries always succeeds.
\<close>

theorem duplicate_mark_is_upsert:
  "(\<forall>code detail. fst (mark_attendance inp u w) \<noteq> Inl (HTTPException code detail))
   \<and> (\<forall>code detail. fst (mark_bulk_attendance bulk u w) \<noteq> Inl (HTTPException code detail))
   \<and> ((\<exists>r \<in> set (attendance w). has_triple (ac_student_id inp) (ac_class_id inp) (ac_date inp) r) \<longrightarrow>
        (\<exists>updated. fst (mark_attendance inp u w) = Inr updated
           \<and> has_triple (ac_student_id inp) (ac_class_id inp) (ac_date inp) updated
           \<and> att_status updated = ac_status inp \<and> att_remarks updated = ac_remarks inp
           \<and> att_marked_by updated = u_id u
           \<and> updated \<in> set (attendance (snd (mark_attendance inp u w)))
           \<and> length (attendance (snd (mark_attendance inp u w))) = length (attendance w)
           \<and> map att_id (attendance (snd (mark_attendance inp u w))) = map att_id (attendance w)))
   \<and> (wf_entry entry \<and> (\<exists>r \<in> set (attendance w). has_triple (entry_student_id entry) c d r) \<longrightarrow>
        fst (mark_bulk_attendance (bulk_input c d [entry]) u w)
          = Inr \<lparr>br_message = ''Bulk attendance marked successfully'',
                 br_results = [\<lparr>br_student_id = entry_student_id entry, br_action = ''updated''\<rparr>]\<rparr>
        \<and> length (attendance (snd (mark_bulk_attendance (bulk_input c d [entry]) u w)))
            = length (attendance w)
        \<and> map att_id (attendance (snd (mark_bulk_attendance (bulk_input c d [entry]) u w)))
            = map att_id (attendance w)
        \<and> (\<exists>r \<in> set (attendance (snd (mark_bulk_attendance (bulk_input c d [entry]) u w))).
              has_triple (entry_student_id entry) c d r
            \<and> att_status r = entry_status entry
            \<and> att_remarks r = opt_str_of (entry ''remarks'')
            \<and> att_marked_by r = u_id u))
   \<and> ((\<forall>x \<in> set pre. wf_entry x) \<and> wf_entry entry
        \<and> (\<exists>r \<in> set (attendance (snd (mark_bulk_attendance (bulk_input c d pre) u w))).
              has_triple (entry_student_id entry) c d r) \<longrightarrow>
        (\<exists>resp. fst (mark_bulk_attendance (bulk_input c d (pre @ [entry])) u w) = Inr resp
           \<and> length (br_results resp) = Suc (length pre)
           \<and> last (br_results resp)
               = \<lparr>br_student_id = entry_student_id entry, br_action = ''updated''\<rparr>
           \<and> map att_id (attendance (snd (mark_bulk_attendance (bulk_input c d (pre @ [entry])) u w)))
               = map att_id (attendance (snd (mark_bulk_attendance (bulk_input c d pre) u w)))
           \<and> (\<exists>r \<in> set (attendance (snd (mark_bulk_attendance (bulk_input c d (pre @ [entry])) u w))).
                 has_triple (entry_student_id entry) c d r
               \<and> att_status r = entry_status entry
               \<and> att_remarks r = opt_str_of (entry ''remarks'')
               \<and> att_marked_by r = u_id u)))
   \<and> ((\<forall>record \<in> set records. wf_entry record) \<longrightarrow>
        (\<exists>resp. fst (mark_bulk_attendance (bulk_input c d records) u w) = Inr resp))"
proof (intro conjI impI allI)
  fix code detail
  show "fst (mark_attendance inp u w) \<noteq> Inl (HTTPException code detail)"
    using mark_attendance_error[of inp u w "HTTPException code detail"] by auto
  show "fst (mark_bulk_attendance bulk u w) \<noteq> Inl (HTTPException code detail)"
  proof
    assume a: "fst (mark_bulk_attendance bulk u w) = Inl (HTTPException code detail)"
    then have "fst (bulk_loop (b_class_id bulk) (b_date bulk) u (b_attendance_records bulk) [] w)
                 = Inl (HTTPException code detail)"
      by (auto simp: mark_bulk_attendance_def split: prod.splits sum.splits)
    then show False
      using bulk_loop_error by fastforce
  qed
next
  assume a: "\<exists>r \<in> set (attendance w). has_triple (ac_student_id inp) (ac_class_id inp) (ac_date inp) r"
  show "\<exists>updated. fst (mark_attendance inp u w) = Inr updated
           \<and> has_triple (ac_student_id inp) (ac_class_id inp) (ac_date inp) updated
           \<and> att_status updated = ac_status inp \<and> att_remarks updated = ac_remarks inp
           \<and> att_marked_by updated = u_id u
           \<and> updated \<in> set (attendance (snd (mark_attendance inp u w)))
           \<and> length (attendance (snd (mark_attendance inp u w))) = length (attendance w)
           \<and> map att_id (attendance (snd (mark_attendance inp u w))) = map att_id (attendance w)"
    using mark_attendance_existing[OF a, of u] mark_attendance_existing_ids[OF a, of u] by blast
next
  assume a: "wf_entry entry \<and> (\<exists>r \<in> set (attendance w). has_triple (entry_student_id entry) c d r)"
  then obtain w' where one: "bulk_loop c d u [entry] [] w =
      (Inr [\<lparr>br_student_id = entry_student_id entry, br_action = ''updated''\<rparr>], w')"
    and ids: "map att_id (attendance w') = map att_id (attendance w)"
    and r: "\<exists>r \<in> set (attendance w').
               has_triple (entry_student_id entry) c d r
             \<and> att_status r = entry_status entry
             \<and> att_remarks r = opt_str_of (entry ''remarks'')
             \<and> att_marked_by r = u_id u"
    using bulk_loop_single_overwrite[of entry w c d u "[]"] by auto
  have run: "mark_bulk_attendance (bulk_input c d [entry]) u w =
      (Inr \<lparr>br_message = ''Bulk attendance marked successfully'',
            br_results = [\<lparr>br_student_id = entry_student_id entry, br_action = ''updated''\<rparr>]\<rparr>, w')"
    by (simp only: mark_bulk_attendance_loop one prod.case sum.case)
  show "fst (mark_bulk_attendance (bulk_input c d [entry]) u w)
          = Inr \<lparr>br_message = ''Bulk attendance marked successfully'',
                 br_results = [\<lparr>br_student_id = entry_student_id entry, br_action = ''updated''\<rparr>]\<rparr>"
    by (simp only: run fst_conv)
  show "map att_id (attendance (snd (mark_bulk_attendance (bulk_input c d [entry]) u w)))
            = map att_id (attendance w)"
    by (simp only: run snd_conv ids)
  then show "length (attendance (snd (mark_bulk_attendance (bulk_input c d [entry]) u w)))
            = length (attendance w)"
    by (metis length_map)
  show "\<exists>r \<in> set (attendance (snd (mark_bulk_attendance (bulk_input c d [entry]) u w))).
              has_triple (entry_student_id entry) c d r
            \<and> att_status r = entry_status entry
            \<and> att_remarks r = opt_str_of (entry ''remarks'')
            \<and> att_marked_by r = u_id u"
    using r by (simp only: run snd_conv)
next
  assume a: "(\<forall>x \<in> set pre. wf_entry x) \<and> wf_entry entry
        \<and> (\<exists>r \<in> set (attendance (snd (mark_bulk_attendance (bulk_input c d pre) u w))).
              has_triple (entry_student_id entry) c d r)"
  show "\<exists>resp. fst (mark_bulk_attendance (bulk_input c d (pre @ [entry])) u w) = Inr resp
           \<and> length (br_results resp) = Suc (length pre)
           \<and> last (br_results resp)
               = \<lparr>br_student_id = entry_student_id entry, br_action = ''updated''\<rparr>
           \<and> map att_id (attendance (snd (mark_bulk_attendance (bulk_input c d (pre @ [entry])) u w)))
               = map att_id (attendance (snd (mark_bulk_attendance (bulk_input c d pre) u w)))
           \<and> (\<exists>r \<in> set (attendance (snd (mark_bulk_attendance (bulk_input c d (pre @ [entry])) u w))).
                 has_triple (entry_student_id entry) c d r
               \<and> att_status r = entry_status entry
               \<and> att_remarks r = opt_str_of (entry ''remarks'')
               \<and> att_marked_by r = u_id u)"
    using a by (intro mark_bulk_attendance_last) blast+
next
  assume "\<forall>record \<in> set records. wf_entry record"
  then obtain res w' where "bulk_loop c d u records [] w = (Inr res, w')"
    using bulk_loop_wf[of records c d u "[]" w] by auto
  then show "\<exists>resp. fst (mark_bulk_attendance (bulk_input c d records) u w) = Inr resp"
    by (simp add: mark_bulk_attendance_loop)
qed

lemmas bulk_eval =
  mark_bulk_attendance_def bulk_input_def attendance_create_of_def getitem_def
  entry_sA_def entry_sC_def entry_bad_def school_world_def empty_world_def att_rec_def
  has_triple_def utcnow_def uuid4_def new_attendance_def insert_one_def set_update_data_def
  entry_student_id_def wf_entry_def

theorem mark_bulk_attendance_results_witness:
  "\<exists>resp. fst (mark_bulk_attendance (bulk_input ''c1'' ''2024-01-05'' [entry_sA, entry_sC, entry_sC])
               teacher1 school_world) = Inr resp
     \<and> length (br_results resp) = 3
     \<and> br_results resp ! 0 = \<lparr>br_student_id = ''sA'', br_action = ''updated''\<rparr>
     \<and> br_results resp ! 1 = \<lparr>br_student_id = ''sC'', br_action = ''created''\<rparr>
     \<and> br_results resp ! 2 = \<lparr>br_student_id = ''sC'', br_action = ''updated''\<rparr>"
proof -
  let ?records = "[entry_sA, entry_sC, entry_sC]"
  let ?after = "\<lambda>i. attendance (snd (mark_bulk_attendance
                     (bulk_input ''c1'' ''2024-01-05'' (take i ?records)) teacher1 school_world))"
  have wf: "\<forall>record \<in> set ?records. wf_entry record"
    by (simp add: wf_entry_def entry_sA_def entry_sC_def)
  have e0: "\<exists>r \<in> set (?after 0). has_triple ''sA'' ''c1'' ''2024-01-05'' r"
    by (simp add: bulk_eval)
  have e1: "\<not> (\<exists>r \<in> set (?after 1). has_triple ''sC'' ''c1'' ''2024-01-05'' r)"
    by (simp add: bulk_eval)
  have e2: "\<exists>r \<in> set (?after 2). has_triple ''sC'' ''c1'' ''2024-01-05'' r"
    by (simp add: bulk_eval)
  have ids: "entry_student_id entry_sA = ''sA''" "entry_student_id entry_sC = ''sC''"
    by (simp_all add: entry_student_id_def entry_sA_def entry_sC_def)
  obtain resp where resp:
    "fst (mark_bulk_attendance (bulk_input ''c1'' ''2024-01-05'' ?records) teacher1 school_world)
       = Inr resp"
    "length (br_results resp) = length ?records"
    "\<forall>i < length ?records.
       br_student_id (br_results resp ! i) = entry_student_id (?records ! i)
     \<and> br_action (br_results resp ! i) =
         (if \<exists>r \<in> set (?after i). has_triple (entry_student_id (?records ! i)) ''c1'' ''2024-01-05'' r
          then ''updated'' else ''created'')"
    using mark_bulk_attendance_results [OF wf, of "''c1''" "''2024-01-05''" teacher1 school_world]
    by blast
  have r0: "br_results resp ! 0 = \<lparr>br_student_id = ''sA'', br_action = ''updated''\<rparr>"
    using resp(3)[rule_format, of 0] e0 by (simp add: ids)
  have r1: "br_results resp ! 1 = \<lparr>br_student_id = ''sC'', br_action = ''created''\<rparr>"
    using resp(3)[rule_format, of 1] e1 by (simp add: ids)
  have r2: "br_results resp ! 2 = \<lparr>br_student_id = ''sC'', br_action = ''updated''\<rparr>"
    using resp(3)[rule_format, of 2] e2 by (simp add: ids)
  from resp(1,2) r0 r1 r2 show ?thesis by auto
qed

theorem mark_bulk_attendance_not_atomic_witness:
  "fst (mark_bulk_attendance (bulk_input ''c1'' ''2024-01-05'' [entry_sC, entry_bad, entry_sA])
          teacher1 school_world) = Inl (KeyError ''status'')
   \<and> length (attendance school_world) = 5
   \<and> length (attendance (snd (mark_bulk_attendance
        (bulk_input ''c1'' ''2024-01-05'' [entry_sC, entry_bad, entry_sA]) teacher1 school_world))) = 6
   \<and> has_triple ''sC'' ''c1'' ''2024-01-05'' (last (attendance (snd (mark_bulk_attendance
        (bulk_input ''c1'' ''2024-01-05'' [entry_sC, entry_bad, entry_sA]) teacher1 school_world))))"
proof -
  have wf: "\<forall>record \<in> set [entry_sC]. wf_entry record"
    by (simp add: wf_entry_def entry_sC_def)
  have bad: "\<not> wf_entry entry_bad"
    by (simp add: wf_entry_def entry_bad_def)
  have err: "attendance_create_of entry_bad ''c1'' ''2024-01-05'' = Inl (KeyError ''status'')"
    by (simp add: attendance_create_of_def getitem_def entry_bad_def)
  have pre: "attendance (snd (mark_bulk_attendance (bulk_input ''c1'' ''2024-01-05'' [entry_sC])
               teacher1 school_world))
             = attendance school_world @
               [\<lparr>att_id = ''uuid-'', att_student_id = ''sC'', att_class_id = ''c1'',
                 att_date = ''2024-01-05'', att_status = ''present'', att_marked_by = ''T1'',
                 att_remarks = None, att_created_at = ''2024-01-05T08:00:00'',
                 att_updated_at = ''2024-01-05T08:00:00+''\<rparr>]"
    by (simp add: bulk_eval teacher1_def)
  have n: "length (attendance school_world) = 5"
    by (simp add: school_world_def)
  from mark_bulk_attendance_not_atomic [OF wf bad, of "''c1''" "''2024-01-05''" "[entry_sA]"
      teacher1 school_world]
  have "mark_bulk_attendance (bulk_input ''c1'' ''2024-01-05'' [entry_sC, entry_bad, entry_sA])
          teacher1 school_world
        = (Inl (KeyError ''status''),
           snd (mark_bulk_attendance (bulk_input ''c1'' ''2024-01-05'' [entry_sC]) teacher1 school_world))"
    by (simp add: err)
  then show ?thesis
    by (simp add: pre n has_triple_def)
qed

theorem duplicate_mark_is_upsert_witness:
  "(\<exists>updated. fst (mark_attendance mark_sA teacher2 school_world) = Inr updated
      \<and> att_status updated = ''late'' \<and> att_remarks updated = Some ''bus''
      \<and> att_marked_by updated = ''T2'')
   \<and> map att_id (attendance (snd (mark_attendance mark_sA teacher2 school_world)))
       = [''a1'', ''a2'', ''a3'', ''a4'', ''a5'']
   \<and> fst (mark_bulk_attendance (bulk_input ''c1'' ''2024-01-05'' [entry_sA]) teacher2 school_world)
       = Inr \<lparr>br_message = ''Bulk attendance marked successfully'',
              br_results = [\<lparr>br_student_id = ''sA'', br_action = ''updated''\<rparr>]\<rparr>
   \<and> map att_id (attendance (snd (mark_bulk_attendance (bulk_input ''c1'' ''2024-01-05'' [entry_sA])
        teacher2 school_world))) = [''a1'', ''a2'', ''a3'', ''a4'', ''a5'']
   \<and> (\<exists>r. r \<in> set (attendance (snd (mark_bulk_attendance
               (bulk_input ''c1'' ''2024-01-05'' [entry_sA]) teacher2 school_world)))
        \<and> has_triple ''sA'' ''c1'' ''2024-01-05'' r \<and> att_status r = ''late''
        \<and> att_remarks r = None \<and> att_marked_by r = ''T2'')
   \<and> (\<exists>r. r \<in> set (attendance (snd (mark_bulk_attendance
               (bulk_input ''c1'' ''2024-01-05'' [entry_sC, entry_sA]) teacher2 school_world)))
        \<and> has_triple ''sA'' ''c1'' ''2024-01-05'' r \<and> att_status r = ''late''
        \<and> att_marked_by r = ''T2'')
   \<and> attendance (snd (mark_bulk_attendance (bulk_input ''c1'' ''2024-01-05'' [entry_sA])
        teacher2 school_world)) ! 4
       = \<lparr>att_id = ''a5'', att_student_id = ''sA'', att_class_id = ''c1'', att_date = ''2024-01-05'',
          att_status = ''late'', att_marked_by = ''T2'', att_remarks = None,
          att_created_at = ''2024-01-05T08:00:00'', att_updated_at = ''2024-01-05T08:00:00''\<rparr>"
proof -
  have ex1: "\<exists>r \<in> set (attendance school_world).
               has_triple (ac_student_id mark_sA) (ac_class_id mark_sA) (ac_date mark_sA) r"
    by (simp add: school_world_def att_rec_def has_triple_def mark_sA_def)
  have ex2: "wf_entry entry_sA \<and> (\<exists>r \<in> set (attendance school_world).
               has_triple (entry_student_id entry_sA) ''c1'' ''2024-01-05'' r)"
    by (simp add: school_world_def att_rec_def has_triple_def wf_entry_def entry_sA_def
        entry_student_id_def)
  have ex3: "(\<forall>x \<in> set [entry_sC]. wf_entry x) \<and> wf_entry entry_sA
        \<and> (\<exists>r \<in> set (attendance (snd (mark_bulk_attendance (bulk_input ''c1'' ''2024-01-05'' [entry_sC])
                                        teacher2 school_world))).
              has_triple (entry_student_id entry_sA) ''c1'' ''2024-01-05'' r)"
    by (simp add: bulk_eval)
  have wf: "\<forall>record \<in> set [entry_sA]. wf_entry record"
    using ex2 by simp
  have ids: "map att_id (attendance school_world) = [''a1'', ''a2'', ''a3'', ''a4'', ''a5'']"
    by (simp add: school_world_def att_rec_def)
  have sid: "entry_student_id entry_sA = ''sA''" "entry_status entry_sA = ''late''"
    "opt_str_of (entry_sA ''remarks'') = None"
    by (simp_all add: entry_student_id_def entry_status_def entry_sA_def)
  have stored: "attendance (snd (mark_bulk_attendance (bulk_input ''c1'' ''2024-01-05'' [entry_sA])
        teacher2 school_world)) ! 4
       = \<lparr>att_id = ''a5'', att_student_id = ''sA'', att_class_id = ''c1'', att_date = ''2024-01-05'',
          att_status = ''late'', att_marked_by = ''T2'', att_remarks = None,
          att_created_at = ''2024-01-05T08:00:00'', att_updated_at = ''2024-01-05T08:00:00''\<rparr>"
    by (simp add: bulk_eval teacher2_def entry_status_def)
  note inst = duplicate_mark_is_upsert [where inp = mark_sA and u = teacher2 and w = school_world
        and entry = entry_sA and c = "''c1''" and d = "''2024-01-05''" and records = "[entry_sA]"
        and bulk = "bulk_input ''c1'' ''2024-01-05'' [entry_sA]" and pre = "[entry_sC]"]
  show ?thesis
    using inst ex1 ex2 ex3 wf stored
    by (simp add: ids sid mark_sA_def teacher2_def) blast
qed

section \<open>Report\<close>

lemma att_matches_report [simp]:
  "att_matches [(''class_id'', Eq c), (''date'', Between lo hi)] = in_range c lo hi"
  by (rule ext) (simp add: att_matches.simps att_field_def in_range_def)

lemma report_records_eq:
  "report_records c lo hi w = take 10000 (filter (in_range c lo hi) (attendance w))"
  by (simp add: report_records_def find_to_list_def)

lemma student_entry_fields:
  "\<exists>e. student_entry s rs = Inr e
     \<and> st_student_id e = s_id s \<and> st_student_name e = s_name s
     \<and> st_roll_number e = s_roll_number s
     \<and> st_total_days e = card (att_date ` set rs)
     \<and> st_present e = count_status (s_id s) ''present'' rs
     \<and> st_absent e = count_status (s_id s) ''absent'' rs
     \<and> st_late e = count_status (s_id s) ''late'' rs
     \<and> st_attendance_percentage e =
         (if 0 < card (att_date ` set rs)
          then py_round (PyFloat (float_mul_int
                 (to_double (of_nat (count_status (s_id s) ''present'' rs)
                             / of_nat (card (att_date ` set rs)))) 100)) 2
          else PyInt 0)"
proof -
  have card: "length (remdups (map att_date rs)) = card (att_date ` set rs)"
    by (simp add: length_remdups_card_conv)
  show ?thesis
    unfolding student_entry_def Let_def card
    by (simp add: int_truediv_def count_status_def)
qed

lemma report_loop_entries:
  "\<exists>es. report_loop sts rs acc = Inr (acc @ es) \<and> length es = length sts
      \<and> (\<forall>i < length sts. student_entry (sts ! i) rs = Inr (es ! i))"
proof (induction sts arbitrary: acc)
  case Nil
  then show ?case by simp
next
  case (Cons s sts)
  obtain e where e: "student_entry s rs = Inr e"
    using student_entry_fields[of s rs] by blast
  obtain es where es: "report_loop sts rs (acc @ [e]) = Inr ((acc @ [e]) @ es)"
    "length es = length sts" "\<forall>i < length sts. student_entry (sts ! i) rs = Inr (es ! i)"
    using Cons.IH[of "acc @ [e]"] by blast
  have "report_loop (s # sts) rs acc = Inr (acc @ e # es)"
    using e es(1) by simp
  moreover have "\<forall>i < length (s # sts). student_entry ((s # sts) ! i) rs = Inr ((e # es) ! i)"
    using e es(3) by (auto simp: nth_Cons split: nat.splits)
  ultimately show ?case
    using es(2) by (intro exI[of _ "e # es"]) simp
qed

lemma get_attendance_report_entries:
  "\<exists>rep. get_attendance_report c lo hi w = Inr rep
     \<and> rp_class_id rep = c \<and> rp_start_date rep = lo \<and> rp_end_date rep = hi
     \<and> length (rp_report rep) = length (report_students c w)
     \<and> (\<forall>i < length (report_students c w).
           student_entry (report_students c w ! i) (report_records c lo hi w)
             = Inr (rp_report rep ! i))"
proof -
  obtain es where es: "report_loop (report_students c w) (report_records c lo hi w) [] = Inr es"
    "length es = length (report_students c w)"
    "\<forall>i < length (report_students c w).
       student_entry (report_students c w ! i) (report_records c lo hi w) = Inr (es ! i)"
    using report_loop_entries[of "report_students c w" "report_records c lo hi w" "[]"] by auto
  show ?thesis
    using es by (simp add: get_attendance_report_def)
qed

text \<open>
  Claim C2. In the report, \<^verbatim>\<open>total_days\<close> of every entry is the number of distinct
  dates among the attendance documents fetched for the class and the range: one
  class-wide number, the same for every student, not a count of the student's own
  documents. So when any document of the class lies in the range, every entry has a
  non-zero \<^verbatim>\<open>total_days\<close>, also that of a student with no document at all.
\<close>

theorem report_total_days_class_wide:
  "\<exists>rep. get_attendance_report class_id start_date end_date w = Inr rep
     \<and> (\<forall>e \<in> set (rp_report rep).
           st_total_days e = card (att_date ` set (report_records class_id start_date end_date w)))
     \<and> ((\<exists>r \<in> set (attendance w). in_range class_id start_date end_date r) \<longrightarrow>
           (\<forall>e \<in> set (rp_report rep). 0 < st_total_days e))"
proof -
  let ?rs = "report_records class_id start_date end_date w"
  let ?sts = "report_students class_id w"
  obtain rep where rep: "get_attendance_report class_id start_date end_date w = Inr rep"
    "length (rp_report rep) = length ?sts"
    "\<forall>i < length ?sts. student_entry (?sts ! i) ?rs = Inr (rp_report rep ! i)"
    using get_attendance_report_entries[of class_id start_date end_date w] by blast
  have total: "st_total_days e = card (att_date ` set ?rs)" if e: "e \<in> set (rp_report rep)" for e
  proof -
    obtain i where i: "i < length (rp_report rep)" "rp_report rep ! i = e"
      using e by (auto simp: in_set_conv_nth)
    then have "student_entry (?sts ! i) ?rs = Inr e"
      using rep(2,3) by simp
    then show ?thesis
      using student_entry_fields[of "?sts ! i" ?rs] by auto
  qed
  have pos: "0 < card (att_date ` set ?rs)"
    if "\<exists>r \<in> set (attendance w). in_range class_id start_date end_date r"
  proof -
    have "filter (in_range class_id start_date end_date) (attendance w) \<noteq> []"
      using that by (simp add: filter_empty_conv)
    then have "?rs \<noteq> []"
      by (simp add: report_records_eq)
    then show ?thesis
      by (simp add: card_gt_0_iff)
  qed
  show ?thesis
    using rep(1) total pos by auto
qed

text \<open>
  What the handler does list: each of the students that \<^verbatim>\<open>to_list(1000)\<close> fetches has an
  entry with the student's id, name and roll number, and the entry's \<^verbatim>\<open>present\<close>,
  \<^verbatim>\<open>absent\<close> and \<^verbatim>\<open>late\<close> are all zero when no attendance document of the class in the
  range belongs to the student.
\<close>

lemma report_lists_fetched_students:
  "\<exists>rep. get_attendance_report class_id start_date end_date w = Inr rep
     \<and> (\<forall>s \<in> set (take 1000 (filter (\<lambda>s. s_class_id s = class_id) (students w))).
           \<exists>e \<in> set (rp_report rep).
             st_student_id e = s_id s \<and> st_student_name e = s_name s
             \<and> st_roll_number e = s_roll_number s
             \<and> ((\<forall>r \<in> set (attendance w).
                    in_range class_id start_date end_date r \<longrightarrow> att_student_id r \<noteq> s_id s) \<longrightarrow>
                  st_present e = 0 \<and> st_absent e = 0 \<and> st_late e = 0))"
proof -
  let ?rs = "report_records class_id start_date end_date w"
  let ?sts = "report_students class_id w"
  obtain rep where rep: "get_attendance_report class_id start_date end_date w = Inr rep"
    "length (rp_report rep) = length ?sts"
    "\<forall>i < length ?sts. student_entry (?sts ! i) ?rs = Inr (rp_report rep ! i)"
    using get_attendance_report_entries[of class_id start_date end_date w] by blast
  have each: "\<exists>e \<in> set (rp_report rep).
             st_student_id e = s_id s \<and> st_student_name e = s_name s
             \<and> st_roll_number e = s_roll_number s
             \<and> ((\<forall>r \<in> set (attendance w).
                    in_range class_id start_date end_date r \<longrightarrow> att_student_id r \<noteq> s_id s) \<longrightarrow>
                  st_present e = 0 \<and> st_absent e = 0 \<and> st_late e = 0)"
    if s: "s \<in> set (take 1000 (filter (\<lambda>s. s_class_id s = class_id) (students w)))" for s
  proof -
    have "s \<in> set ?sts"
      using s by (simp add: report_students_def find_to_list_def)
    then obtain i where i: "i < length ?sts" "?sts ! i = s"
      by (auto simp: in_set_conv_nth)
    let ?e = "rp_report rep ! i"
    have e: "student_entry s ?rs = Inr ?e"
      using rep(3) i by auto
    have mem: "?e \<in> set (rp_report rep)"
      using i(1) rep(2) by simp
    have sub: "set ?rs \<subseteq> {r \<in> set (attendance w). in_range class_id start_date end_date r}"
      by (auto simp: report_records_eq dest: in_set_takeD)
    have zero: "count_status (s_id s) st ?rs = 0"
      if "\<forall>r \<in> set (attendance w). in_range class_id start_date end_date r \<longrightarrow> att_student_id r \<noteq> s_id s"
      for st
      using that sub by (auto simp: count_status_def filter_empty_conv)
    show ?thesis
      using student_entry_fields[of s ?rs] e mem zero by (intro bexI[of _ ?e]) auto
  qed
  show ?thesis
    using rep(1) each by blast
qed

lemma report_ids_eq:
  "report_ids (get_attendance_report c lo hi w) = map s_id (report_students c w)"
proof -
  obtain rep where rep: "get_attendance_report c lo hi w = Inr rep"
    "length (rp_report rep) = length (report_students c w)"
    "\<forall>i < length (report_students c w).
       student_entry (report_students c w ! i) (report_records c lo hi w) = Inr (rp_report rep ! i)"
    using get_attendance_report_entries[of c lo hi w] by blast
  have "map st_student_id (rp_report rep) = map s_id (report_students c w)"
  proof (rule nth_equalityI)
    show "length (map st_student_id (rp_report rep)) = length (map s_id (report_students c w))"
      using rep(2) by simp
  next
    fix i assume "i < length (map st_student_id (rp_report rep))"
    then have i: "i < length (report_students c w)" using rep(2) by simp
    then have "student_entry (report_students c w ! i) (report_records c lo hi w)
                 = Inr (rp_report rep ! i)"
      using rep(3) by blast
    then have "st_student_id (rp_report rep ! i) = s_id (report_students c w ! i)"
      using student_entry_fields[of "report_students c w ! i" "report_records c lo hi w"] by auto
    then show "map st_student_id (rp_report rep) ! i = map s_id (report_students c w) ! i"
      using i rep(2) by simp
  qed
  then show ?thesis
    by (simp add: report_ids_def rep(1))
qed

text \<open>
  Claim C4. Every student of the class is to appear in the report, also one without
  attendance documents; the handler says so itself (\<^verbatim>\<open># Get all students in the class\<close>).
  It does not do it: the student query stops at 1000 documents, and in a class of 1001
  students without any attendance document the student stored last belongs to the
  class and has no entry in the report.
\<close>

theorem report_omits_student_past_fetch_limit:
  "crowd_student 1000 \<in> set (students crowded_class_world)
   \<and> s_class_id (crowd_student 1000) = ''c1''
   \<and> s_id (crowd_student 1000)
       \<notin> set (report_ids (get_attendance_report ''c1'' ''2024-01-01'' ''2024-01-31'' crowded_class_world))"
proof -
  have a: "crowd_student 1000 \<in> set (students crowded_class_world)"
    by (simp add: crowded_class_world_def empty_world_def)
  have b: "s_class_id (crowd_student 1000) = ''c1''"
    by (simp add: crowd_student_def)
  have all: "filter (\<lambda>s. s_class_id s = ''c1'') (map crowd_student [0..<1001])
               = map crowd_student [0..<1001]"
    by (simp add: crowd_student_def)
  have sts: "report_students ''c1'' crowded_class_world = map crowd_student [0..<1000]"
    by (simp add: report_students_def find_to_list_def crowded_class_world_def empty_world_def
        all take_map)
  have c: "s_id (crowd_student 1000)
       \<notin> set (report_ids (get_attendance_report ''c1'' ''2024-01-01'' ''2024-01-31'' crowded_class_world))"
    by (auto simp: report_ids_eq sts crowd_student_def)
  from a b c show ?thesis by blast
qed

lemma school_report:
  "get_attendance_report ''c1'' ''2024-01-01'' ''2024-01-31'' school_world =
     Inr \<lparr>rp_class_id = ''c1'', rp_start_date = ''2024-01-01'', rp_end_date = ''2024-01-31'',
          rp_report =
            [\<lparr>st_student_id = ''sA'', st_student_name = ''Alice'', st_roll_number = ''1'',
              st_total_days = 5, st_present = 3, st_absent = 2, st_late = 0,
              st_attendance_percentage = PyFloat 60\<rparr>,
             \<lparr>st_student_id = ''sB'', st_student_name = ''Bob'', st_roll_number = ''2'',
              st_total_days = 5, st_present = 0, st_absent = 0, st_late = 0,
              st_attendance_percentage = PyFloat 0\<rparr>]\<rparr>"
  by code_simp

theorem report_total_days_class_wide_witness:
  "\<exists>rep. get_attendance_report ''c1'' ''2024-01-01'' ''2024-01-31'' school_world = Inr rep
     \<and> map st_student_id (rp_report rep) = [''sA'', ''sB'']
     \<and> map st_total_days (rp_report rep) = [5, 5]
     \<and> map st_present (rp_report rep) = [3, 0]
     \<and> card (att_date ` set (report_records ''c1'' ''2024-01-01'' ''2024-01-31'' school_world)) = 5"
proof -
  obtain rep where rep:
    "get_attendance_report ''c1'' ''2024-01-01'' ''2024-01-31'' school_world = Inr rep"
    "\<forall>e \<in> set (rp_report rep).
       st_total_days e = card (att_date ` set (report_records ''c1'' ''2024-01-01'' ''2024-01-31''
                                                school_world))"
    using report_total_days_class_wide [of "''c1''" "''2024-01-01''" "''2024-01-31''" school_world]
    by blast
  have lit: "rp_report rep =
            [\<lparr>st_student_id = ''sA'', st_student_name = ''Alice'', st_roll_number = ''1'',
              st_total_days = 5, st_present = 3, st_absent = 2, st_late = 0,
              st_attendance_percentage = PyFloat 60\<rparr>,
             \<lparr>st_student_id = ''sB'', st_student_name = ''Bob'', st_roll_number = ''2'',
              st_total_days = 5, st_present = 0, st_absent = 0, st_late = 0,
              st_attendance_percentage = PyFloat 0\<rparr>]"
    using rep(1) by (auto simp: school_report)
  have "card (att_date ` set (report_records ''c1'' ''2024-01-01'' ''2024-01-31'' school_world)) = 5"
    using rep(2) by (simp add: lit)
  then show ?thesis
    using rep(1) by (simp add: lit)
qed

lemma report_lists_fetched_students_example:
  "\<exists>rep e. get_attendance_report ''c1'' ''2024-01-01'' ''2024-01-31'' school_world = Inr rep
     \<and> e \<in> set (rp_report rep) \<and> st_student_id e = ''sB'' \<and> st_student_name e = ''Bob''
     \<and> st_present e = 0 \<and> st_absent e = 0 \<and> st_late e = 0"
proof -
  let ?bob = "\<lparr>s_id = ''sB'', s_name = ''Bob'', s_roll_number = ''2'', s_class_id = ''c1'',
          s_email = None, s_phone = None, s_created_at = ''2024-01-01T00:00:00''\<rparr>"
  have mem: "?bob \<in> set (take 1000 (filter (\<lambda>s. s_class_id s = ''c1'') (students school_world)))"
    by (simp add: school_world_def)
  have none: "\<forall>r \<in> set (attendance school_world).
                in_range ''c1'' ''2024-01-01'' ''2024-01-31'' r \<longrightarrow> att_student_id r \<noteq> s_id ?bob"
    by (simp add: school_world_def att_rec_def)
  obtain rep where rep:
    "get_attendance_report ''c1'' ''2024-01-01'' ''2024-01-31'' school_world = Inr rep"
    "\<forall>s \<in> set (take 1000 (filter (\<lambda>s. s_class_id s = ''c1'') (students school_world))).
           \<exists>e \<in> set (rp_report rep).
             st_student_id e = s_id s \<and> st_student_name e = s_name s
             \<and> st_roll_number e = s_roll_number s
             \<and> ((\<forall>r \<in> set (attendance school_world).
                    in_range ''c1'' ''2024-01-01'' ''2024-01-31'' r \<longrightarrow> att_student_id r \<noteq> s_id s) \<longrightarrow>
                  st_present e = 0 \<and> st_absent e = 0 \<and> st_late e = 0)"
    using report_lists_fetched_students [of "''c1''" "''2024-01-01''" "''2024-01-31''" school_world]
    by blast
  from rep(2)[rule_format, OF mem] none
  obtain e where "e \<in> set (rp_report rep)" "st_student_id e = ''sB''" "st_student_name e = ''Bob''"
    "st_present e = 0" "st_absent e = 0" "st_late e = 0"
    by auto
  then show ?thesis using rep(1) by blast
qed

section \<open>Counts and percentage of the report\<close>

lemma round_half_even_error: "\<bar>of_int (round_half_even x) - x\<bar> \<le> 1 / 2"
proof -
  have "of_int \<lfloor>x\<rfloor> \<le> x" "x < of_int \<lfloor>x\<rfloor> + 1"
    by linarith+
  then show ?thesis
    unfolding round_half_even_def Let_def by (auto simp: abs_le_iff)
qed


lemma binary_exponent_le:
  assumes "x \<noteq> 0"
  shows "power_int 2 (binary_exponent x) \<le> \<bar>x\<bar>"
proof -
  obtain a b where q: "quotient_of \<bar>x\<bar> = (a, b)"
    by (cases "quotient_of \<bar>x\<bar>")
  have b: "0 < b" using quotient_of_denom_pos[OF q] .
  have x: "\<bar>x\<bar> = of_int a / of_int b" using quotient_of_div[OF q] .
  have a: "0 < a"
  proof (rule ccontr)
    assume "\<not> 0 < a"
    then have "of_int a / (of_int b :: rat) \<le> 0"
      using b by (simp add: divide_le_0_iff)
    then show False using x assms by simp
  qed
  let ?k = "bitlen a - bitlen b"
  show ?thesis
  proof (cases "power_int 2 ?k \<le> \<bar>x\<bar>")
    case True
    then show ?thesis by (simp add: binary_exponent_def q)
  next
    case False
    have la: "1 \<le> bitlen a" and lb: "1 \<le> bitlen b"
      using a b bitlen_eq_zero_iff[of a] bitlen_eq_zero_iff[of b] bitlen_nonneg[of a] bitlen_nonneg[of b]
      by linarith+
    have na: "(2::int) ^ nat (bitlen a - 1) \<le> a" and nb: "b < 2 ^ nat (bitlen b)"
      using bitlen_bounds[OF a] bitlen_bounds[OF b] by simp_all
    have ra: "(2::rat) ^ nat (bitlen a - 1) \<le> of_int a"
      using na by (metis of_int_le_iff of_int_numeral of_int_power)
    have rb: "(of_int b :: rat) \<le> 2 ^ nat (bitlen b)"
      using nb by (metis less_imp_le of_int_le_iff of_int_numeral of_int_power)
    have "power_int (2::rat) (?k - 1) = power_int 2 (bitlen a - 1) / power_int 2 (bitlen b)"
      using power_int_diff[of "2::rat" "bitlen a - 1" "bitlen b"] by (simp add: algebra_simps)
    also have "\<dots> = 2 ^ nat (bitlen a - 1) / 2 ^ nat (bitlen b)"
      using la lb by (simp add: power_int_nonneg_exp)
    also have "\<dots> \<le> of_int a / of_int b"
      using ra rb a b by (intro frac_le) simp_all
    finally have "power_int (2::rat) (?k - 1) \<le> \<bar>x\<bar>"
      using x by simp
    then show ?thesis
      using False by (simp add: binary_exponent_def q)
  qed
qed

lemma to_double_error: "\<bar>to_double x - x\<bar> \<le> (\<bar>x\<bar> + 1) / 2 ^ 53"
proof (cases "x = 0")
  case True
  then show ?thesis by (simp add: to_double_def)
next
  case False
  define e where "e = binary_exponent x"
  define ulp :: rat where "ulp = power_int 2 (max (e - 52) (- 1074))"
  have ulp_pos: "0 < ulp"
    by (simp add: ulp_def)
  have td: "to_double x = sgn x * of_int (round_half_even (\<bar>x\<bar> / ulp)) * ulp"
    using False by (simp add: to_double_def Let_def ulp_def e_def)
  have "to_double x - x = sgn x * ((of_int (round_half_even (\<bar>x\<bar> / ulp)) - \<bar>x\<bar> / ulp) * ulp)"
    using ulp_pos by (simp add: td algebra_simps abs_sgn)
  then have "\<bar>to_double x - x\<bar> = \<bar>of_int (round_half_even (\<bar>x\<bar> / ulp)) - \<bar>x\<bar> / ulp\<bar> * ulp"
    using False ulp_pos by (simp add: abs_mult abs_sgn_eq)
  also have "\<dots> \<le> (1 / 2) * ulp"
    using round_half_even_error[of "\<bar>x\<bar> / ulp"] ulp_pos by (intro mult_right_mono) simp_all
  finally have half: "\<bar>to_double x - x\<bar> \<le> ulp / 2" by simp
  have "ulp \<le> (\<bar>x\<bar> + 1) / 2 ^ 52"
  proof (cases "- 1074 \<le> e - 52")
    case True
    then have "max (e - 52) (- 1074) = e - 52" by simp
    then have "ulp = power_int 2 (e - 52)" by (simp only: ulp_def)
    also have "\<dots> = power_int 2 e / 2 ^ 52"
      using power_int_diff[of "2::rat" e 52] by simp
    also have "\<dots> \<le> \<bar>x\<bar> / 2 ^ 52"
      using binary_exponent_le[OF False] by (simp add: e_def divide_right_mono)
    also have "\<dots> \<le> (\<bar>x\<bar> + 1) / 2 ^ 52"
      by (simp add: divide_right_mono)
    finally show ?thesis .
  next
    case False
    then have "max (e - 52) (- 1074) = - 1074" by simp
    then have "ulp = power_int 2 (- 1074)" by (simp only: ulp_def)
    also have "\<dots> = (1::rat) / 2 ^ 1074"
      using power_int_minus_divide[of "2::rat" 1074] by simp
    also have "\<dots> \<le> (1::rat) / 2 ^ 52"
      by (intro divide_left_mono power_increasing) simp_all
    also have "\<dots> \<le> (\<bar>x\<bar> + 1) / 2 ^ 52"
      by (simp add: divide_right_mono)
    finally show ?thesis .
  qed
  then have "ulp / 2 \<le> (\<bar>x\<bar> + 1) / 2 ^ 53"
    by simp
  then show ?thesis using half by linarith
qed

lemma to_double_100: "to_double (of_int 100) = 100"
  by code_simp

lemma percentage_rounding:
  fixes p t :: nat
  assumes p: "p \<le> 10000" and t: "0 < t" "t \<le> 10000"
  defines "x1 \<equiv> to_double (of_nat p / of_nat t)"
  defines "x2 \<equiv> float_mul_int x1 100"
  defines "n \<equiv> round_half_even (x2 * 10 ^ 2)"
  shows "\<bar>of_int n / 100 - 100 * of_nat p / (of_nat t :: rat)\<bar> \<le> 1 / 200"
proof -
  define P :: rat where "P = of_nat p / of_nat t"
  have tpos: "(0::rat) < of_nat t" using t by simp
  have P0: "0 \<le> P" by (simp add: P_def)
  have "of_nat p \<le> (10000::rat) * of_nat t"
  proof -
    have "p \<le> 10000 * t" using p t by (cases t) auto
    then show ?thesis by (metis of_nat_le_iff of_nat_mult of_nat_numeral)
  qed
  then have P1: "P \<le> 10000"
    using tpos by (simp add: P_def pos_divide_le_eq)
  define d1 :: rat where "d1 = 10001 / 2 ^ 53"
  define d2 :: rat where "d2 = 1000101 / 2 ^ 53"
  have d1: "0 \<le> d1" "d1 \<le> 1" by (simp_all add: d1_def)
  have "\<bar>x1 - P\<bar> \<le> (\<bar>P\<bar> + 1) / 2 ^ 53"
    unfolding x1_def P_def by (rule to_double_error)
  also have "\<dots> \<le> d1"
    unfolding d1_def using P0 P1 by (intro divide_right_mono) simp_all
  finally have e1: "\<bar>x1 - P\<bar> \<le> d1" .
  have x1b: "\<bar>x1\<bar> \<le> 10001"
    using e1 d1 P0 P1 by linarith
  have x2: "x2 = to_double (x1 * 100)"
    using to_double_100 by (simp add: x2_def float_mul_int_def)
  have "\<bar>x1 * 100\<bar> + 1 \<le> 1000101"
    using x1b by (simp add: abs_mult)
  then have "(\<bar>x1 * 100\<bar> + 1) / 2 ^ 53 \<le> d2"
    unfolding d2_def by (intro divide_right_mono) simp_all
  moreover have "\<bar>x2 - x1 * 100\<bar> \<le> (\<bar>x1 * 100\<bar> + 1) / 2 ^ 53"
    unfolding x2 by (rule to_double_error)
  ultimately have e2: "\<bar>x2 - x1 * 100\<bar> \<le> d2" by linarith
  have e3: "\<bar>x2 * 100 - 10000 * P\<bar> \<le> 100 * d2 + 10000 * d1"
    using e1 e2 by linarith
  have small: "100 * d2 + 10000 * d1 < 1 / 20000"
    by (simp add: d1_def d2_def)
  have rn: "\<bar>of_int n - x2 * 100\<bar> \<le> 1 / 2"
    using round_half_even_error[of "x2 * 10 ^ 2"] by (simp add: n_def)
  have close: "\<bar>of_int n - 10000 * P\<bar> < 1 / 2 + 1 / 20000"
    using rn e3 small by linarith
  define k :: int where "k = 2 * n * int t - 20000 * int p"
  have k: "(of_int k :: rat) = (of_int n - 10000 * P) * (2 * of_nat t)"
    using tpos by (simp add: k_def P_def field_simps)
  have "\<bar>of_int k :: rat\<bar> = \<bar>of_int n - 10000 * P\<bar> * (2 * of_nat t)"
    using tpos by (simp add: k abs_mult)
  also have "\<dots> < (1 / 2 + 1 / 20000) * (2 * of_nat t)"
    using close tpos by (intro mult_strict_right_mono) simp_all
  also have "\<dots> = of_nat t + of_nat t / 10000"
    by (simp add: field_simps)
  also have "\<dots> \<le> of_nat t + 1"
  proof -
    have "(of_nat t :: rat) \<le> 10000"
      using t(2) by (metis of_nat_le_iff of_nat_numeral)
    then show ?thesis by simp
  qed
  finally have "\<bar>of_int k :: rat\<bar> < of_int (int t + 1)"
    by simp
  then have "\<bar>k\<bar> < int t + 1"
    by (metis of_int_abs of_int_less_iff)
  then have "\<bar>k\<bar> \<le> int t" by simp
  then have "\<bar>of_int k :: rat\<bar> \<le> of_nat t"
    by (metis of_int_abs of_int_le_iff of_int_of_nat_eq)
  then have "\<bar>of_int n - 10000 * P\<bar> * (2 * of_nat t) \<le> of_nat t"
    using tpos by (simp add: k abs_mult)
  then have "\<bar>of_int n - 10000 * P\<bar> \<le> 1 / 2"
    using tpos by (simp add: field_simps)
  then show ?thesis
    by (simp add: P_def abs_le_iff field_simps)
qed


lemma count_status_le: "count_status sid st rs \<le> length rs"
  by (simp add: count_status_def)

lemma report_records_length: "length (report_records c lo hi w) \<le> 10000"
  by (simp add: report_records_eq)

text \<open>
  Claim C3. The report is always produced: no division by zero can occur. For every
  entry, \<^verbatim>\<open>present\<close>, \<^verbatim>\<open>absent\<close> and \<^verbatim>\<open>late\<close> are the numbers of fetched documents of
  that student with that status. When \<^verbatim>\<open>total_days\<close> is 0 the percentage is the
  integer 0. Otherwise it is the float nearest to a decimal \<open>n / 100\<close> with two places
  that lies within half a hundredth of \<open>present / total_days * 100\<close>: that quotient
  rounded to two decimal places.
\<close>

theorem report_counts_and_percentage:
  "\<exists>rep. get_attendance_report class_id start_date end_date w = Inr rep
     \<and> length (rp_report rep) = length (report_students class_id w)
     \<and> (\<forall>i < length (rp_report rep).
           st_student_id (rp_report rep ! i) = s_id (report_students class_id w ! i)
         \<and> st_present (rp_report rep ! i)
             = count_status (s_id (report_students class_id w ! i)) ''present''
                 (report_records class_id start_date end_date w)
         \<and> st_absent (rp_report rep ! i)
             = count_status (s_id (report_students class_id w ! i)) ''absent''
                 (report_records class_id start_date end_date w)
         \<and> st_late (rp_report rep ! i)
             = count_status (s_id (report_students class_id w ! i)) ''late''
                 (report_records class_id start_date end_date w)
         \<and> (st_total_days (rp_report rep ! i) = 0 \<longrightarrow>
               st_attendance_percentage (rp_report rep ! i) = PyInt 0)
         \<and> (0 < st_total_days (rp_report rep ! i) \<longrightarrow>
               (\<exists>n. st_attendance_percentage (rp_report rep ! i) = PyFloat (to_double (of_int n / 100))
                  \<and> \<bar>of_int n / 100
                       - 100 * of_nat (st_present (rp_report rep ! i))
                           / (of_nat (st_total_days (rp_report rep ! i)) :: rat)\<bar> \<le> 1 / 200)))"
proof -
  let ?rs = "report_records class_id start_date end_date w"
  let ?sts = "report_students class_id w"
  obtain rep where rep: "get_attendance_report class_id start_date end_date w = Inr rep"
    "length (rp_report rep) = length ?sts"
    "\<forall>i < length ?sts. student_entry (?sts ! i) ?rs = Inr (rp_report rep ! i)"
    using get_attendance_report_entries[of class_id start_date end_date w] by blast
  have each: "st_student_id (rp_report rep ! i) = s_id (?sts ! i)
         \<and> st_present (rp_report rep ! i) = count_status (s_id (?sts ! i)) ''present'' ?rs
         \<and> st_absent (rp_report rep ! i) = count_status (s_id (?sts ! i)) ''absent'' ?rs
         \<and> st_late (rp_report rep ! i) = count_status (s_id (?sts ! i)) ''late'' ?rs
         \<and> (st_total_days (rp_report rep ! i) = 0 \<longrightarrow>
               st_attendance_percentage (rp_report rep ! i) = PyInt 0)
         \<and> (0 < st_total_days (rp_report rep ! i) \<longrightarrow>
               (\<exists>n. st_attendance_percentage (rp_report rep ! i) = PyFloat (to_double (of_int n / 100))
                  \<and> \<bar>of_int n / 100
                       - 100 * of_nat (st_present (rp_report rep ! i))
                           / (of_nat (st_total_days (rp_report rep ! i)) :: rat)\<bar> \<le> 1 / 200))"
    if i: "i < length (rp_report rep)" for i
  proof -
    let ?e = "rp_report rep ! i"
    let ?s = "?sts ! i"
    let ?p = "count_status (s_id ?s) ''present'' ?rs"
    let ?t = "card (att_date ` set ?rs)"
    have "student_entry ?s ?rs = Inr ?e"
      using rep(2,3) i by simp
    then have f: "st_student_id ?e = s_id ?s" "st_total_days ?e = ?t" "st_present ?e = ?p"
      "st_absent ?e = count_status (s_id ?s) ''absent'' ?rs"
      "st_late ?e = count_status (s_id ?s) ''late'' ?rs"
      "st_attendance_percentage ?e =
         (if 0 < ?t
          then py_round (PyFloat (float_mul_int (to_double (of_nat ?p / of_nat ?t)) 100)) 2
          else PyInt 0)"
      using student_entry_fields[of ?s ?rs] by auto
    have pb: "?p \<le> 10000"
      using count_status_le[of "s_id ?s" "''present''" ?rs] report_records_length[of class_id start_date end_date w]
      by linarith
    have "?t \<le> length ?rs"
      by (metis card_image_le card_length le_trans List.finite_set)
    then have tb: "?t \<le> 10000"
      using report_records_length[of class_id start_date end_date w] by linarith
    have pct: "\<exists>n. st_attendance_percentage ?e = PyFloat (to_double (of_int n / 100))
                  \<and> \<bar>of_int n / 100 - 100 * of_nat ?p / (of_nat ?t :: rat)\<bar> \<le> 1 / 200"
      if t: "0 < ?t"
    proof -
      let ?n = "round_half_even (float_mul_int (to_double (of_nat ?p / of_nat ?t)) 100 * 10 ^ 2)"
      have "st_attendance_percentage ?e = PyFloat (to_double (of_int ?n / 100))"
        using f(6) t by simp
      moreover have "\<bar>of_int ?n / 100 - 100 * of_nat ?p / (of_nat ?t :: rat)\<bar> \<le> 1 / 200"
        using percentage_rounding[OF pb t tb] .
      ultimately show ?thesis by blast
    qed
    show ?thesis
      using f pct by (simp only: f(1-5)) auto
  qed
  show ?thesis
    using rep(1,2) each by blast
qed


lemma no_marks_report:
  "get_attendance_report ''c1'' ''2024-01-01'' ''2024-01-31'' no_marks_world =
     Inr \<lparr>rp_class_id = ''c1'', rp_start_date = ''2024-01-01'', rp_end_date = ''2024-01-31'',
          rp_report =
            [\<lparr>st_student_id = ''sA'', st_student_name = ''Alice'', st_roll_number = ''1'',
              st_total_days = 0, st_present = 0, st_absent = 0, st_late = 0,
              st_attendance_percentage = PyInt 0\<rparr>,
             \<lparr>st_student_id = ''sB'', st_student_name = ''Bob'', st_roll_number = ''2'',
              st_total_days = 0, st_present = 0, st_absent = 0, st_late = 0,
              st_attendance_percentage = PyInt 0\<rparr>]\<rparr>"
  by code_simp

theorem report_counts_and_percentage_witness:
  "(\<exists>rep n. get_attendance_report ''c1'' ''2024-01-01'' ''2024-01-31'' school_world = Inr rep
      \<and> st_present (rp_report rep ! 0) = 3
      \<and> count_status ''sA'' ''present''
           (report_records ''c1'' ''2024-01-01'' ''2024-01-31'' school_world) = 3
      \<and> count_status ''sA'' ''absent''
           (report_records ''c1'' ''2024-01-01'' ''2024-01-31'' school_world) = 2
      \<and> st_attendance_percentage (rp_report rep ! 0) = PyFloat 60
      \<and> PyFloat 60 = PyFloat (to_double (of_int n / 100))
      \<and> \<bar>of_int n / 100 - (60::rat)\<bar> \<le> 1 / 200)
   \<and> (\<exists>rep. get_attendance_report ''c1'' ''2024-01-01'' ''2024-01-31'' no_marks_world = Inr rep
      \<and> st_total_days (rp_report rep ! 0) = 0
      \<and> st_attendance_percentage (rp_report rep ! 0) = PyInt 0)"
proof -
  let ?lo = "''2024-01-01''" and ?hi = "''2024-01-31''"
  obtain rep where rep: "get_attendance_report ''c1'' ?lo ?hi school_world = Inr rep"
    and all: "\<forall>i < length (rp_report rep).
           st_student_id (rp_report rep ! i) = s_id (report_students ''c1'' school_world ! i)
         \<and> st_present (rp_report rep ! i)
             = count_status (s_id (report_students ''c1'' school_world ! i)) ''present''
                 (report_records ''c1'' ?lo ?hi school_world)
         \<and> st_absent (rp_report rep ! i)
             = count_status (s_id (report_students ''c1'' school_world ! i)) ''absent''
                 (report_records ''c1'' ?lo ?hi school_world)
         \<and> st_late (rp_report rep ! i)
             = count_status (s_id (report_students ''c1'' school_world ! i)) ''late''
                 (report_records ''c1'' ?lo ?hi school_world)
         \<and> (st_total_days (rp_report rep ! i) = 0 \<longrightarrow>
               st_attendance_percentage (rp_report rep ! i) = PyInt 0)
         \<and> (0 < st_total_days (rp_report rep ! i) \<longrightarrow>
               (\<exists>n. st_attendance_percentage (rp_report rep ! i) = PyFloat (to_double (of_int n / 100))
                  \<and> \<bar>of_int n / 100
                       - 100 * of_nat (st_present (rp_report rep ! i))
                           / (of_nat (st_total_days (rp_report rep ! i)) :: rat)\<bar> \<le> 1 / 200))"
    using report_counts_and_percentage [of "''c1''" ?lo ?hi school_world] by blast
  have lit: "rp_report rep ! 0 =
      \<lparr>st_student_id = ''sA'', st_student_name = ''Alice'', st_roll_number = ''1'',
       st_total_days = 5, st_present = 3, st_absent = 2, st_late = 0,
       st_attendance_percentage = PyFloat 60\<rparr>" and len: "0 < length (rp_report rep)"
    using rep by (auto simp: school_report)
  note first = all [rule_format, OF len]
  have sid: "s_id (report_students ''c1'' school_world ! 0) = ''sA''"
    using first by (simp add: lit)
  have p: "count_status ''sA'' ''present'' (report_records ''c1'' ?lo ?hi school_world) = 3"
    and ab: "count_status ''sA'' ''absent'' (report_records ''c1'' ?lo ?hi school_world) = 2"
    using first by (simp_all add: lit sid)
  obtain n :: int where n: "PyFloat 60 = PyFloat (to_double (of_int n / 100))"
    "\<bar>of_int n / 100 - (60::rat)\<bar> \<le> 1 / 200"
    using first by (auto simp: lit)
  have a: "\<exists>rep n. get_attendance_report ''c1'' ?lo ?hi school_world = Inr rep
      \<and> st_present (rp_report rep ! 0) = 3
      \<and> count_status ''sA'' ''present'' (report_records ''c1'' ?lo ?hi school_world) = 3
      \<and> count_status ''sA'' ''absent'' (report_records ''c1'' ?lo ?hi school_world) = 2
      \<and> st_attendance_percentage (rp_report rep ! 0) = PyFloat 60
      \<and> PyFloat 60 = PyFloat (to_double (of_int n / 100))
      \<and> \<bar>of_int n / 100 - (60::rat)\<bar> \<le> 1 / 200"
    using rep p ab n by (intro exI[of _ rep] exI[of _ n]) (simp add: lit)
  obtain rep0 where rep0: "get_attendance_report ''c1'' ?lo ?hi no_marks_world = Inr rep0"
    and all0: "\<forall>i < length (rp_report rep0).
           (st_total_days (rp_report rep0 ! i) = 0 \<longrightarrow>
               st_attendance_percentage (rp_report rep0 ! i) = PyInt 0)"
    using report_counts_and_percentage [of "''c1''" ?lo ?hi no_marks_world] by blast
  have zero: "st_total_days (rp_report rep0 ! 0) = 0" and len0: "0 < length (rp_report rep0)"
    using rep0 by (auto simp: no_marks_report)
  have b: "\<exists>rep. get_attendance_report ''c1'' ?lo ?hi no_marks_world = Inr rep
      \<and> st_total_days (rp_report rep ! 0) = 0
      \<and> st_attendance_percentage (rp_report rep ! 0) = PyInt 0"
    using rep0 zero all0 [rule_format, OF len0] by blast
  from a b show ?thesis by blast
qed

end
